theory Spec2Isabelle
  imports Main "HOL-Library.Sublist" "HOL-Library.Char_ord" "HOL-Library.Word"
begin

section \<open>Go strings\<close>

text \<open>
  A Go string is a sequence of bytes; it is modelled as a \<^typ>\<open>string\<close> (a list of 8-bit
  characters). The functions of package \<open>strings\<close> that the crawler calls are written out
  for the arguments the crawler gives them (a one-byte separator, the cutset \<open>"/"\<close>).
\<close>

definition Cut :: "char \<Rightarrow> string \<Rightarrow> string \<times> string \<times> bool" where
  "Cut sep s = (takeWhile (\<lambda>c. c \<noteq> sep) s, drop 1 (dropWhile (\<lambda>c. c \<noteq> sep) s), sep \<in> set s)"

definition HasPrefix :: "string \<Rightarrow> string \<Rightarrow> bool" where
  "HasPrefix s p = prefix p s"

definition HasSuffix :: "string \<Rightarrow> string \<Rightarrow> bool" where
  "HasSuffix s p = suffix p s"

definition TrimRight :: "string \<Rightarrow> char \<Rightarrow> string" where
  "TrimRight s c = rev (dropWhile (\<lambda>x. x = c) (rev s))"

text \<open>\<open>LastIndex\<close> of a single byte: \<open>None\<close> stands for Go's \<open>-1\<close>.\<close>

definition LastIndex :: "string \<Rightarrow> char \<Rightarrow> nat option" where
  "LastIndex s c = (if c \<in> set s then Some (length s - 1 - length (takeWhile (\<lambda>x. x \<noteq> c) (rev s))) else None)"

fun Index :: "string \<Rightarrow> string \<Rightarrow> nat option" where
  "Index [] sub = (if sub = [] then Some 0 else None)"
| "Index (c # s) sub =
     (if prefix sub (c # s) then Some 0
      else (case Index s sub of None \<Rightarrow> None | Some i \<Rightarrow> Some (Suc i)))"

definition Count :: "string \<Rightarrow> char \<Rightarrow> nat" where
  "Count s c = length (filter (\<lambda>x. x = c) s)"

text \<open>
  \<open>strings.TrimSpace\<close> removes leading and trailing white space as Unicode defines it, read
  from the UTF-8 bytes: the six ASCII characters, U+0085, U+00A0, U+1680, U+2000 to U+200A,
  U+2028, U+2029, U+202F, U+205F and U+3000. \<open>spaceRunes\<close> lists their encodings.
\<close>

definition spaceRunes :: "string list" where
  "spaceRunes =
     [[CHR 0x09], [CHR 0x0A], [CHR 0x0B], [CHR 0x0C], [CHR 0x0D], [CHR 0x20],
      [CHR 0xC2, CHR 0x85], [CHR 0xC2, CHR 0xA0],
      [CHR 0xE1, CHR 0x9A, CHR 0x80],
      [CHR 0xE2, CHR 0x80, CHR 0x80], [CHR 0xE2, CHR 0x80, CHR 0x81],
      [CHR 0xE2, CHR 0x80, CHR 0x82], [CHR 0xE2, CHR 0x80, CHR 0x83],
      [CHR 0xE2, CHR 0x80, CHR 0x84], [CHR 0xE2, CHR 0x80, CHR 0x85],
      [CHR 0xE2, CHR 0x80, CHR 0x86], [CHR 0xE2, CHR 0x80, CHR 0x87],
      [CHR 0xE2, CHR 0x80, CHR 0x88], [CHR 0xE2, CHR 0x80, CHR 0x89],
      [CHR 0xE2, CHR 0x80, CHR 0x8A],
      [CHR 0xE2, CHR 0x80, CHR 0xA8], [CHR 0xE2, CHR 0x80, CHR 0xA9],
      [CHR 0xE2, CHR 0x80, CHR 0xAF],
      [CHR 0xE2, CHR 0x81, CHR 0x9F],
      [CHR 0xE3, CHR 0x80, CHR 0x80]]"

definition leadingSpace :: "string \<Rightarrow> string option" where
  "leadingSpace s = find (\<lambda>r. prefix r s) spaceRunes"

definition trailingSpace :: "string \<Rightarrow> string option" where
  "trailingSpace s = find (\<lambda>r. suffix r s) spaceRunes"

lemma spaceRunes_nonempty: "r \<in> set spaceRunes \<Longrightarrow> r \<noteq> []"
  by (auto simp: spaceRunes_def)

lemma leadingSpace_Some: "leadingSpace s = Some r \<Longrightarrow> r \<noteq> [] \<and> prefix r s \<and> r \<in> set spaceRunes"
  unfolding leadingSpace_def by (auto simp: find_Some_iff spaceRunes_nonempty)

lemma trailingSpace_Some: "trailingSpace s = Some r \<Longrightarrow> r \<noteq> [] \<and> suffix r s \<and> r \<in> set spaceRunes"
  unfolding trailingSpace_def by (auto simp: find_Some_iff spaceRunes_nonempty)

function TrimLeftSpace :: "string \<Rightarrow> string" where
  "TrimLeftSpace s =
     (case leadingSpace s of None \<Rightarrow> s | Some r \<Rightarrow> TrimLeftSpace (drop (length r) s))"
  by pat_completeness auto
termination
proof (relation "measure length")
  show "wf (measure length)" by simp
next
  fix s r :: string
  assume "leadingSpace s = Some r"
  then have "r \<noteq> []" "prefix r s" using leadingSpace_Some by blast+
  then show "(drop (length r) s, s) \<in> measure length"
    by (cases s) (auto simp: prefix_def)
qed

function TrimRightSpace :: "string \<Rightarrow> string" where
  "TrimRightSpace s =
     (case trailingSpace s of None \<Rightarrow> s | Some r \<Rightarrow> TrimRightSpace (take (length s - length r) s))"
  by pat_completeness auto
termination
proof (relation "measure length")
  show "wf (measure length)" by simp
next
  fix s r :: string
  assume "trailingSpace s = Some r"
  then have "r \<noteq> []" "suffix r s" using trailingSpace_Some by blast+
  then show "(take (length s - length r) s, s) \<in> measure length"
    by (cases s) (auto simp: suffix_def)
qed

definition TrimSpace :: "string \<Rightarrow> string" where
  "TrimSpace s = TrimRightSpace (TrimLeftSpace s)"

section \<open>The standard library's URLs (package \<open>net/url\<close>)\<close>

text \<open>
  \<open>normalizeURL\<close> and \<open>SetDomain\<close> are written on top of \<open>url.Parse\<close>, \<open>URL.IsAbs\<close>,
  \<open>URL.ResolveReference\<close>, \<open>URL.String\<close> and \<open>URL.Hostname\<close>. These belong to Go's standard
  library, not to the repository; they are transcribed here function by function (as of
  Go 1.22) so that the crawler's functions can be evaluated on concrete strings.
\<close>

record Userinfo =
  username :: string
  password :: string
  passwordSet :: bool

record URL =
  Scheme :: string
  Opaque :: string
  User :: "Userinfo option"
  Host :: string
  Path :: string
  RawPath :: string
  OmitHost :: bool
  ForceQuery :: bool
  RawQuery :: string
  Fragment :: string
  RawFragment :: string

definition emptyURL :: URL where
  "emptyURL = \<lparr>Scheme = [], Opaque = [], User = None, Host = [], Path = [], RawPath = [],
     OmitHost = False, ForceQuery = False, RawQuery = [], Fragment = [], RawFragment = []\<rparr>"

datatype urlError =
    InvalidControlCharacter
  | MissingProtocolScheme
  | FirstPathSegmentColon
  | MissingBracket
  | InvalidPort string
  | InvalidUserinfo
  | EscapeError string
  | InvalidHostError string

datatype encoding =
    encodePath
  | encodePathSegment
  | encodeHost
  | encodeZone
  | encodeUserPassword
  | encodeQueryComponent
  | encodeFragment

text \<open>The source's \<open>lo <= c && c <= hi\<close> on bytes.\<close>

definition inRange :: "char \<Rightarrow> char \<Rightarrow> char \<Rightarrow> bool" where
  "inRange lo hi c = (lo \<le> c \<and> c \<le> hi)"

definition isLetter :: "char \<Rightarrow> bool" where
  "isLetter c = (inRange CHR ''a'' CHR ''z'' c \<or> inRange CHR ''A'' CHR ''Z'' c)"

definition isDigit :: "char \<Rightarrow> bool" where
  "isDigit c = (inRange CHR ''0'' CHR ''9'' c)"

definition ishex :: "char \<Rightarrow> bool" where
  "ishex c = (isDigit c \<or> inRange CHR ''a'' CHR ''f'' c \<or> inRange CHR ''A'' CHR ''F'' c)"

definition unhex :: "char \<Rightarrow> nat" where
  "unhex c =
     (if isDigit c then of_char c - of_char CHR ''0''
      else if inRange CHR ''a'' CHR ''f'' c then of_char c - of_char CHR ''a'' + 10
      else if inRange CHR ''A'' CHR ''F'' c then of_char c - of_char CHR ''A'' + 10
      else 0)"

definition unhex2 :: "char \<Rightarrow> char \<Rightarrow> char" where
  "unhex2 a b = char_of (unhex a * 16 + unhex b)"

definition upperhex :: "nat \<Rightarrow> char" where
  "upperhex n = ''0123456789ABCDEF'' ! (n mod 16)"

definition ToLower :: "string \<Rightarrow> string" where
  "ToLower s = map (\<lambda>c. if inRange CHR ''A'' CHR ''Z'' c then char_of (of_char c + (32::nat)) else c) s"

definition stringContainsCTLByte :: "string \<Rightarrow> bool" where
  "stringContainsCTLByte s = (\<exists>b \<in> set s. b < CHR 0x20 \<or> b = CHR 0x7F)"

definition shouldEscape :: "char \<Rightarrow> encoding \<Rightarrow> bool" where
  "shouldEscape c mode =
     (if isLetter c \<or> isDigit c then False
      else if (mode = encodeHost \<or> mode = encodeZone)
              \<and> c \<in> set (''!$&()*+,;=:[]<>'' @ [CHR 0x27, CHR 0x22]) then False
      else if c \<in> set ''-_.~'' then False
      else if c \<in> set ''$&+,/:;=?@'' \<and> mode = encodePath then c = CHR ''?''
      else if c \<in> set ''$&+,/:;=?@'' \<and> mode = encodePathSegment then c \<in> set ''/;,?''
      else if c \<in> set ''$&+,/:;=?@'' \<and> mode = encodeUserPassword then c \<in> set ''@/?:''
      else if c \<in> set ''$&+,/:;=?@'' \<and> mode = encodeQueryComponent then True
      else if c \<in> set ''$&+,/:;=?@'' \<and> mode = encodeFragment then False
      else if mode = encodeFragment \<and> c \<in> set ''!()*'' then False
      else True)"

text \<open>
  \<open>unescape\<close> makes two passes: the first checks every \<open>%\<close> escape (and, in a host, every
  byte), the second decodes. \<open>unescape_check\<close> is the first pass and gives the error it
  stops at.
\<close>

fun unescape_check :: "encoding \<Rightarrow> string \<Rightarrow> urlError option" where
  "unescape_check mode [] = None"
| "unescape_check mode (c # s) =
     (if c = CHR ''%'' then
        (case s of
           a # b # s' \<Rightarrow>
             if \<not> ishex a \<or> \<not> ishex b then Some (EscapeError (take 3 (c # s)))
             else if mode = encodeHost \<and> unhex a < 8 \<and> [c, a, b] \<noteq> ''%25''
               then Some (EscapeError [c, a, b])
             else if mode = encodeZone \<and> [c, a, b] \<noteq> ''%25'' \<and> unhex2 a b \<noteq> CHR '' ''
                     \<and> shouldEscape (unhex2 a b) encodeHost
               then Some (EscapeError [c, a, b])
             else unescape_check mode s'
         | _ \<Rightarrow> Some (EscapeError (take 3 (c # s))))
      else if (mode = encodeHost \<or> mode = encodeZone) \<and> c < CHR 0x80 \<and> shouldEscape c encodeHost
        then Some (InvalidHostError [c])
      else unescape_check mode s)"

fun unescape_decode :: "encoding \<Rightarrow> string \<Rightarrow> string" where
  "unescape_decode mode [] = []"
| "unescape_decode mode (c # s) =
     (if c = CHR ''%'' then
        (case s of
           a # b # s' \<Rightarrow> unhex2 a b # unescape_decode mode s'
         | _ \<Rightarrow> [c])
      else if c = CHR ''+'' \<and> mode = encodeQueryComponent then CHR '' '' # unescape_decode mode s
      else c # unescape_decode mode s)"

definition unescape :: "string \<Rightarrow> encoding \<Rightarrow> urlError + string" where
  "unescape s mode =
     (case unescape_check mode s of
        Some e \<Rightarrow> Inl e
      | None \<Rightarrow> Inr (unescape_decode mode s))"

definition escape :: "string \<Rightarrow> encoding \<Rightarrow> string" where
  "escape s mode =
     concat (map (\<lambda>c.
       if shouldEscape c mode then
         (if c = CHR '' '' \<and> mode = encodeQueryComponent then ''+''
          else [CHR ''%'', upperhex (of_char c div 16), upperhex (of_char c mod 16)])
       else [c]) s)"

text \<open>
  \<open>getScheme\<close> scans \<open>rawURL\<close> from the left; \<open>pre\<close> is the part already read, so the
  source's \<open>i == 0\<close> is \<open>pre = []\<close>.
\<close>

fun getScheme_scan :: "string \<Rightarrow> string \<Rightarrow> string \<Rightarrow> urlError + (string \<times> string)" where
  "getScheme_scan rawURL pre [] = Inr ([], rawURL)"
| "getScheme_scan rawURL pre (c # cs) =
     (if isLetter c then getScheme_scan rawURL (pre @ [c]) cs
      else if isDigit c \<or> c = CHR ''+'' \<or> c = CHR ''-'' \<or> c = CHR ''.'' then
        (if pre = [] then Inr ([], rawURL) else getScheme_scan rawURL (pre @ [c]) cs)
      else if c = CHR '':'' then
        (if pre = [] then Inl MissingProtocolScheme else Inr (pre, cs))
      else Inr ([], rawURL))"

definition getScheme :: "string \<Rightarrow> urlError + (string \<times> string)" where
  "getScheme rawURL = getScheme_scan rawURL [] rawURL"

definition validOptionalPort :: "string \<Rightarrow> bool" where
  "validOptionalPort port =
     (case port of
        [] \<Rightarrow> True
      | c # ds \<Rightarrow> c = CHR '':'' \<and> (\<forall>b \<in> set ds. isDigit b))"

definition validUserinfo :: "string \<Rightarrow> bool" where
  "validUserinfo s =
     (\<forall>r \<in> set s. isLetter r \<or> isDigit r \<or> r \<in> set (''-._:~!$&()*+,;=%@'' @ [CHR 0x27]))"

definition parseHost :: "string \<Rightarrow> urlError + string" where
  "parseHost host =
     (if HasPrefix host ''['' then
        (case LastIndex host CHR '']'' of
           None \<Rightarrow> Inl MissingBracket
         | Some i \<Rightarrow>
             let colonPort = drop (i + 1) host in
             if \<not> validOptionalPort colonPort then Inl (InvalidPort colonPort)
             else (case Index (take i host) ''%25'' of
                 Some zone \<Rightarrow>
                   (case unescape (take zone host) encodeHost of
                      Inl e \<Rightarrow> Inl e
                    | Inr host1 \<Rightarrow>
                   (case unescape (drop zone (take i host)) encodeZone of
                      Inl e \<Rightarrow> Inl e
                    | Inr host2 \<Rightarrow>
                   (case unescape (drop i host) encodeHost of
                      Inl e \<Rightarrow> Inl e
                    | Inr host3 \<Rightarrow> Inr (host1 @ host2 @ host3))))
               | None \<Rightarrow> unescape host encodeHost))
      else
        (case LastIndex host CHR '':'' of
           Some i \<Rightarrow>
             let colonPort = drop i host in
             if \<not> validOptionalPort colonPort then Inl (InvalidPort colonPort)
             else unescape host encodeHost
         | None \<Rightarrow> unescape host encodeHost))"

definition parseAuthority :: "string \<Rightarrow> urlError + (Userinfo option \<times> string)" where
  "parseAuthority authority =
     (case LastIndex authority CHR ''@'' of
        None \<Rightarrow>
          (case parseHost authority of Inl e \<Rightarrow> Inl e | Inr host \<Rightarrow> Inr (None, host))
      | Some i \<Rightarrow>
          (case parseHost (drop (i + 1) authority) of
             Inl e \<Rightarrow> Inl e
           | Inr host \<Rightarrow>
               let userinfo = take i authority in
               if \<not> validUserinfo userinfo then Inl InvalidUserinfo
               else if CHR '':'' \<notin> set userinfo then
                 (case unescape userinfo encodeUserPassword of
                    Inl e \<Rightarrow> Inl e
                  | Inr u \<Rightarrow> Inr (Some \<lparr>username = u, password = [], passwordSet = False\<rparr>, host))
               else
                 (case Cut CHR '':'' userinfo of (uname, pword, _) \<Rightarrow>
                   (case unescape uname encodeUserPassword of
                      Inl e \<Rightarrow> Inl e
                    | Inr u \<Rightarrow>
                   (case unescape pword encodeUserPassword of
                      Inl e \<Rightarrow> Inl e
                    | Inr p \<Rightarrow> Inr (Some \<lparr>username = u, password = p, passwordSet = True\<rparr>, host))))))"

definition setPath :: "URL \<Rightarrow> string \<Rightarrow> urlError + URL" where
  "setPath u p =
     (case unescape p encodePath of
        Inl e \<Rightarrow> Inl e
      | Inr path \<Rightarrow>
          Inr (u\<lparr>Path := path, RawPath := (if p = escape path encodePath then [] else p)\<rparr>))"

definition setFragment :: "URL \<Rightarrow> string \<Rightarrow> urlError + URL" where
  "setFragment u f =
     (case unescape f encodeFragment of
        Inl e \<Rightarrow> Inl e
      | Inr frag \<Rightarrow>
          Inr (u\<lparr>Fragment := frag, RawFragment := (if f = escape frag encodeFragment then [] else f)\<rparr>))"

text \<open>The unexported \<open>parse\<close>, with \<open>viaRequest = false\<close> as \<open>Parse\<close> calls it.\<close>

definition parse :: "string \<Rightarrow> urlError + URL" where
  "parse rawURL =
     (if stringContainsCTLByte rawURL then Inl InvalidControlCharacter
      else if rawURL = ''*'' then Inr (emptyURL\<lparr>Path := ''*''\<rparr>)
      else
        (case getScheme rawURL of
           Inl e \<Rightarrow> Inl e
         | Inr (scheme, rest0) \<Rightarrow>
             let url0 = emptyURL\<lparr>Scheme := ToLower scheme\<rparr>;
                 force = (HasSuffix rest0 ''?'' \<and> Count rest0 CHR ''?'' = 1);
                 rest = (if force then butlast rest0 else fst (Cut CHR ''?'' rest0));
                 url1 = (if force then url0\<lparr>ForceQuery := True\<rparr>
                         else url0\<lparr>RawQuery := fst (snd (Cut CHR ''?'' rest0))\<rparr>)
             in
             if \<not> HasPrefix rest ''/'' \<and> Scheme url1 \<noteq> [] then Inr (url1\<lparr>Opaque := rest\<rparr>)
             else if \<not> HasPrefix rest ''/'' \<and> CHR '':'' \<in> set (fst (Cut CHR ''/'' rest))
               then Inl FirstPathSegmentColon
             else if (Scheme url1 \<noteq> [] \<or> \<not> HasPrefix rest ''///'') \<and> HasPrefix rest ''//'' then
               (let authority0 = drop 2 rest;
                    authority = takeWhile (\<lambda>c. c \<noteq> CHR ''/'') authority0;
                    rest' = dropWhile (\<lambda>c. c \<noteq> CHR ''/'') authority0
                in case parseAuthority authority of
                     Inl e \<Rightarrow> Inl e
                   | Inr (user, host) \<Rightarrow> setPath (url1\<lparr>User := user, Host := host\<rparr>) rest')
             else if Scheme url1 \<noteq> [] \<and> HasPrefix rest ''/'' then
               setPath (url1\<lparr>OmitHost := True\<rparr>) rest
             else setPath url1 rest))"

definition Parse :: "string \<Rightarrow> urlError + URL" where
  "Parse rawURL =
     (case Cut CHR ''#'' rawURL of (u, frag, _) \<Rightarrow>
        (case parse u of
           Inl e \<Rightarrow> Inl e
         | Inr url \<Rightarrow> if frag = [] then Inr url else setFragment url frag))"

definition IsAbs :: "URL \<Rightarrow> bool" where
  "IsAbs u = (Scheme u \<noteq> [])"

definition validEncoded :: "string \<Rightarrow> encoding \<Rightarrow> bool" where
  "validEncoded s mode =
     (\<forall>c \<in> set s. c \<in> set (''!$&()*+,;=:@[]%'' @ [CHR 0x27]) \<or> \<not> shouldEscape c mode)"

definition EscapedPath :: "URL \<Rightarrow> string" where
  "EscapedPath u =
     (if RawPath u \<noteq> [] \<and> validEncoded (RawPath u) encodePath
         \<and> unescape (RawPath u) encodePath = Inr (Path u) then RawPath u
      else if Path u = ''*'' then ''*''
      else escape (Path u) encodePath)"

definition EscapedFragment :: "URL \<Rightarrow> string" where
  "EscapedFragment u =
     (if RawFragment u \<noteq> [] \<and> validEncoded (RawFragment u) encodeFragment
         \<and> unescape (RawFragment u) encodeFragment = Inr (Fragment u) then RawFragment u
      else escape (Fragment u) encodeFragment)"

definition Userinfo_String :: "Userinfo \<Rightarrow> string" where
  "Userinfo_String ui =
     escape (username ui) encodeUserPassword
       @ (if passwordSet ui then '':'' @ escape (password ui) encodeUserPassword else [])"

text \<open>\<open>URL.String\<close>; \<open>buf\<close> is the builder the source writes to, part by part.\<close>

definition String :: "URL \<Rightarrow> string" where
  "String u =
     (let buf0 = (if Scheme u \<noteq> [] then Scheme u @ '':'' else []);
          buf1 =
            (if Opaque u \<noteq> [] then buf0 @ Opaque u
             else
               let buf2 =
                     (if Scheme u \<noteq> [] \<or> Host u \<noteq> [] \<or> User u \<noteq> None then
                        (if OmitHost u \<and> Host u = [] \<and> User u = None then buf0
                         else buf0
                           @ (if Host u \<noteq> [] \<or> Path u \<noteq> [] \<or> User u \<noteq> None then ''//'' else [])
                           @ (case User u of None \<Rightarrow> [] | Some ui \<Rightarrow> Userinfo_String ui @ ''@'')
                           @ (if Host u \<noteq> [] then escape (Host u) encodeHost else []))
                      else buf0);
                   path = EscapedPath u;
                   buf3 = (if path \<noteq> [] \<and> hd path \<noteq> CHR ''/'' \<and> Host u \<noteq> [] then buf2 @ ''/'' else buf2);
                   buf4 = (if buf3 = [] \<and> CHR '':'' \<in> set (fst (Cut CHR ''/'' path)) then buf3 @ ''./'' else buf3)
               in buf4 @ path);
          buf5 = (if ForceQuery u \<or> RawQuery u \<noteq> [] then buf1 @ ''?'' @ RawQuery u else buf1)
      in if Fragment u \<noteq> [] then buf5 @ ''#'' @ EscapedFragment u else buf5)"

text \<open>
  \<open>resolvePath\<close>: \<open>dst\<close> is the builder after its leading \<open>/\<close> (the source's
  \<open>dst.String()[1:]\<close>), \<open>first\<close> the source's flag, and the result of the loop carries the
  last element read.
\<close>

fun resolvePath_loop :: "string list \<Rightarrow> string \<Rightarrow> bool \<Rightarrow> string \<times> string" where
  "resolvePath_loop [] dst first = (dst, [])"
| "resolvePath_loop (elem # elems) dst first =
     (let (dst', first') =
            (if elem = ''.'' then (dst, False)
             else if elem = ''..'' then
               (case LastIndex dst CHR ''/'' of
                  None \<Rightarrow> ([], True)
                | Some index \<Rightarrow> (take index dst, first))
             else ((if first then dst else dst @ ''/'') @ elem, False))
      in if elems = [] then (dst', elem) else resolvePath_loop elems dst' first')"

text \<open>
  The elements that the loop's repeated \<open>strings.Cut(remaining, "/")\<close> yields, in order:
  the pieces of \<open>full\<close> between slashes (\<open>cur\<close> is the piece being read).
\<close>

fun splitSlash :: "string \<Rightarrow> string \<Rightarrow> string list" where
  "splitSlash cur [] = [cur]"
| "splitSlash cur (c # s) =
     (if c = CHR ''/'' then cur # splitSlash [] s else splitSlash (cur @ [c]) s)"

definition resolvePath :: "string \<Rightarrow> string \<Rightarrow> string" where
  "resolvePath base ref =
     (let full =
            (if ref = [] then base
             else if hd ref \<noteq> CHR ''/'' then
               (case LastIndex base CHR ''/'' of
                  None \<Rightarrow> ref
                | Some i \<Rightarrow> take (i + 1) base @ ref)
             else ref)
      in if full = [] then []
         else
           (case resolvePath_loop (splitSlash [] full) [] True of (dst, elem) \<Rightarrow>
              let r = ''/'' @ dst @ (if elem = ''.'' \<or> elem = ''..'' then ''/'' else [])
              in if length r > 1 \<and> r ! 1 = CHR ''/'' then drop 1 r else r))"

text \<open>
  \<open>ResolveReference\<close> ignores the error of \<open>setPath\<close> (the path it passes is validly
  escaped); the model leaves the URL as it is in that case.
\<close>

definition setPath_ignore :: "URL \<Rightarrow> string \<Rightarrow> URL" where
  "setPath_ignore u p = (case setPath u p of Inl e \<Rightarrow> u | Inr u' \<Rightarrow> u')"

definition ResolveReference :: "URL \<Rightarrow> URL \<Rightarrow> URL" where
  "ResolveReference u ref =
     (let url0 = (if Scheme ref = [] then ref\<lparr>Scheme := Scheme u\<rparr> else ref) in
      if Scheme ref \<noteq> [] \<or> Host ref \<noteq> [] \<or> User ref \<noteq> None then
        setPath_ignore url0 (resolvePath (EscapedPath ref) [])
      else if Opaque ref \<noteq> [] then url0\<lparr>User := None, Host := [], Path := []\<rparr>
      else
        let url1 =
              (if Path ref = [] \<and> \<not> ForceQuery ref \<and> RawQuery ref = [] then
                 (if Fragment ref = []
                  then url0\<lparr>RawQuery := RawQuery u, Fragment := Fragment u, RawFragment := RawFragment u\<rparr>
                  else url0\<lparr>RawQuery := RawQuery u\<rparr>)
               else url0)
        in if Path ref = [] \<and> Opaque u \<noteq> [] then
             url1\<lparr>Opaque := Opaque u, User := None, Host := [], Path := []\<rparr>
           else
             setPath_ignore (url1\<lparr>Host := Host u, User := User u\<rparr>)
               (resolvePath (EscapedPath u) (EscapedPath ref)))"

definition splitHostPort :: "string \<Rightarrow> string \<times> string" where
  "splitHostPort hostPort =
     (let (host, port) =
            (case LastIndex hostPort CHR '':'' of
               None \<Rightarrow> (hostPort, [])
             | Some colon \<Rightarrow>
                 if validOptionalPort (drop colon hostPort)
                 then (take colon hostPort, drop (colon + 1) hostPort)
                 else (hostPort, []))
      in if HasPrefix host ''['' \<and> HasSuffix host '']''
         then (take (length host - 2) (drop 1 host), port)
         else (host, port))"

definition Hostname :: "URL \<Rightarrow> string" where
  "Hostname u = fst (splitHostPort (Host u))"

section \<open>The crawler's URL normalizer\<close>

text \<open>
  \<open>normalizeURL\<close> returns a string and a flag; every path that returns \<open>false\<close> returns the
  empty string with it, so the pair is an option: \<open>None\<close> is \<open>("", false)\<close> and
  \<open>Some n\<close> is \<open>(n, true)\<close>. The receiver's only field it reads is \<open>domain\<close>.
\<close>

definition normalizeURL :: "string \<Rightarrow> string \<Rightarrow> string option" where
  "normalizeURL domain href =
     (if TrimSpace href = [] then None
      else
        (case Parse href of
           Inl err \<Rightarrow> None
         | Inr parsedURL \<Rightarrow>
             if Scheme parsedURL = ''javascript'' then None
             else
               (case (if \<not> IsAbs parsedURL
                      then (case Parse domain of
                              Inl err \<Rightarrow> None
                            | Inr baseURL \<Rightarrow> Some (ResolveReference baseURL parsedURL))
                      else Some parsedURL) of
                  None \<Rightarrow> None
                | Some resolved \<Rightarrow>
                    let normalized = TrimRight (String (resolved\<lparr>Fragment := []\<rparr>)) CHR ''/''
                    in if HasPrefix normalized domain then Some normalized else None)))"

text \<open>\<open>ensureTrailingSlash\<close>, the helper beside it.\<close>

definition ensureTrailingSlash :: "string \<Rightarrow> string" where
  "ensureTrailingSlash urlStr =
     (case Parse urlStr of
        Inl err \<Rightarrow> urlStr
      | Inr parsedURL \<Rightarrow>
          if (Path parsedURL = [] \<or> \<not> HasSuffix (Path parsedURL) ''/'')
             \<and> CHR ''.'' \<notin> set (Path parsedURL)
          then String (parsedURL\<lparr>Path := Path parsedURL @ ''/''\<rparr>)
          else String parsedURL)"

section \<open>The crawler\<close>

record crawlerURL =
  link :: string
  checksum :: string
  lastChanged :: nat

text \<open>
  The crawler's data fields. \<open>visited\<close> and \<open>links\<close> are Go maps from a URL to its record.
  The mutex is not modelled: a crawl is one sequential function here. The two loggers are
  callbacks; a call of one is an event of the trace below.
\<close>

record crawler =
  domain :: string
  linkAttributes :: "string list"
  visited :: "string \<rightharpoonup> crawlerURL"
  links :: "string \<rightharpoonup> crawlerURL"

definition newCrawler :: "string \<Rightarrow> string list \<Rightarrow> crawler" where
  "newCrawler d attrs = \<lparr>domain = d, linkAttributes = attrs, visited = Map.empty, links = Map.empty\<rparr>"

subsection \<open>What the crawler is given from outside\<close>

text \<open>
  The tokens of package \<open>golang.org/x/net/html\<close>. The tokenizer is a library outside the
  repository: \<open>extractLinks\<close> is modelled on the sequence of tokens that the successive calls
  of \<open>tokenizer.Next()\<close> and \<open>tokenizer.Token()\<close> give. The end of that sequence is the
  \<open>ErrorToken\<close> the tokenizer gives at the end of its input.
\<close>

datatype TokenType =
    ErrorToken
  | TextToken
  | StartTagToken
  | EndTagToken
  | SelfClosingTagToken
  | CommentToken
  | DoctypeToken

record Attribute =
  Namespace :: string
  Key :: string
  Val :: string

record Token =
  Type :: TokenType
  Data :: string
  Attr :: "Attribute list"

text \<open>
  The result of \<open>client.Get\<close> followed by \<open>io.ReadAll\<close>: the request fails (a redirect is a
  failure, by the client's \<open>CheckRedirect\<close>), or a response arrives with its status code and
  the outcome of reading its body.
\<close>

datatype response =
    GetFailed string
  | Replied int "string + string"

text \<open>
  The world the crawler talks to: the network and the clock are state transformers on a
  state \<open>'w\<close> that the crawler threads through (a site may answer differently every time);
  the tokenizer and the hash function are pure.
\<close>

record 'w world =
  httpGet :: "'w \<Rightarrow> string \<Rightarrow> response \<times> 'w"
  timeNow :: "'w \<Rightarrow> nat \<times> 'w"
  tokenize :: "string \<Rightarrow> Token list"
  sha256hex :: "string \<Rightarrow> string"

text \<open>The errors the crawler hands to its error logger, by the format string that makes them.\<close>

datatype crawlError =
    ErrFetching string string
  | ErrStatus string int
  | ErrReadBody string

text \<open>
  What a run does to the outside, in order: a GET with its outcome, a reading of the clock,
  a call of the info logger or of the error logger; and, for the goroutine of
  \<open>NewSiteMapper\<close>, a sleep, a call of the callback and the panic of the ticker.
\<close>

datatype event =
    HttpGet string response
  | ClockRead nat
  | InfoLogged string
  | ErrorLogged crawlError
  | Slept "64 word"
  | CallbackCalled
  | TickerPanicked

subsection \<open>\<open>extractLinks\<close>\<close>

text \<open>
  One of the two inner loops over \<open>token.Attr\<close>: they differ in the test on \<open>attr.Key\<close>
  only, which is the parameter \<open>sel\<close>.
\<close>

fun scanAttrs :: "string \<Rightarrow> (Attribute \<Rightarrow> bool) \<Rightarrow> Attribute list \<Rightarrow> string list \<Rightarrow> string list" where
  "scanAttrs d sel [] ls = ls"
| "scanAttrs d sel (attr # attrs) ls =
     (if sel attr then
        (case normalizeURL d (Val attr) of
           Some normalized \<Rightarrow> scanAttrs d sel attrs (ls @ [normalized])
         | None \<Rightarrow> scanAttrs d sel attrs ls)
      else scanAttrs d sel attrs ls)"

fun extractLinks_loop :: "crawler \<Rightarrow> Token list \<Rightarrow> string list \<Rightarrow> string list" where
  "extractLinks_loop c [] ls = ls"
| "extractLinks_loop c (token # rest) ls =
     (if Type token = StartTagToken \<or> Type token = SelfClosingTagToken then
        (if Data token = ''a''
         then extractLinks_loop c rest
                (scanAttrs (domain c) (\<lambda>attr. Key attr = ''href'') (Attr token) ls)
         else extractLinks_loop c rest
                (scanAttrs (domain c) (\<lambda>attr. Key attr \<in> set (linkAttributes c)) (Attr token) ls))
      else if Type token = ErrorToken then ls
      else extractLinks_loop c rest ls)"

definition extractLinks :: "'w world \<Rightarrow> crawler \<Rightarrow> string \<Rightarrow> string list" where
  "extractLinks E c r = extractLinks_loop c (tokenize E r) []"

subsection \<open>\<open>crawl\<close>\<close>

definition infoCrawling :: "string \<Rightarrow> string" where
  "infoCrawling currentURL = ''Crawling '' @ [CHR 0x27] @ currentURL @ [CHR 0x27]"

text \<open>
  One turn of the loop \<open>for len(queue) > 0\<close>, after \<open>currentURL\<close> has been taken off the
  queue. The state is the crawler, the queue, the world and the events so far.
\<close>

definition crawl_body ::
  "'w world \<Rightarrow> string \<Rightarrow> crawler \<times> string list \<times> 'w \<times> event list
     \<Rightarrow> crawler \<times> string list \<times> 'w \<times> event list" where
  "crawl_body E currentURL st =
     (case st of (c, queue, w, tr) \<Rightarrow>
        if visited c currentURL \<noteq> None then (c, queue, w, tr)
        else
          (case httpGet E w currentURL of (resp, w1) \<Rightarrow>
             let tr1 = tr @ [HttpGet currentURL resp] in
             (case resp of
                GetFailed err \<Rightarrow> (c, queue, w1, tr1 @ [ErrorLogged (ErrFetching currentURL err)])
              | Replied StatusCode body \<Rightarrow>
                  if StatusCode \<noteq> 200
                  then (c, queue, w1, tr1 @ [ErrorLogged (ErrStatus currentURL StatusCode)])
                  else
                    (case body of
                       Inl err \<Rightarrow> (c, queue, w1, tr1 @ [ErrorLogged (ErrReadBody err)])
                     | Inr bodyBytes \<Rightarrow>
                         (case timeNow E w1 of (now, w2) \<Rightarrow>
                            let found = extractLinks E c bodyBytes;
                                queue' = queue @ filter (\<lambda>l. visited c l = None) found;
                                url = \<lparr>link = currentURL,
                                       checksum = sha256hex E bodyBytes,
                                       lastChanged = now\<rparr>
                            in (c\<lparr>visited := (visited c)(currentURL \<mapsto> url)\<rparr>, queue', w2,
                                tr1 @ [InfoLogged (infoCrawling currentURL), ClockRead now]))))))"

text \<open>
  The loop itself. A site may link to ever new pages, so the loop need not end: it is given
  fuel, one unit per turn, and \<open>None\<close> says that the fuel ran out before the queue did.
\<close>

fun crawl_loop ::
  "'w world \<Rightarrow> nat \<Rightarrow> crawler \<times> string list \<times> 'w \<times> event list
     \<Rightarrow> (crawler \<times> 'w \<times> event list) option" where
  "crawl_loop E n (c, [], w, tr) = Some (c, w, tr)"
| "crawl_loop E 0 (c, currentURL # queue, w, tr) = None"
| "crawl_loop E (Suc n) (c, currentURL # queue, w, tr) =
     crawl_loop E n (crawl_body E currentURL (c, queue, w, tr))"

text \<open>
  The update of the known links after the loop: \<open>newLinks\<close> gets one entry for every key of
  \<open>visited\<close>, whatever the order in which Go ranges over the map.
\<close>

definition newLinks :: "(string \<rightharpoonup> crawlerURL) \<Rightarrow> (string \<rightharpoonup> crawlerURL) \<Rightarrow> (string \<rightharpoonup> crawlerURL)" where
  "newLinks vis old =
     (\<lambda>linkVisited.
        case vis linkVisited of
          None \<Rightarrow> None
        | Some urlVisited \<Rightarrow>
            (case old linkVisited of
               Some oldUrl \<Rightarrow>
                 if checksum urlVisited \<noteq> checksum oldUrl then Some urlVisited else Some oldUrl
             | None \<Rightarrow> Some urlVisited))"

text \<open>
  \<open>crawl\<close> gives the crawler and the world after the cycle and the events of the cycle, or
  \<open>None\<close> when the loop does not end within the fuel.
\<close>

definition crawl ::
  "'w world \<Rightarrow> nat \<Rightarrow> string \<Rightarrow> crawler \<times> 'w \<Rightarrow> (crawler \<times> 'w \<times> event list) option" where
  "crawl E fuel url st =
     (case st of (c, w) \<Rightarrow>
        let c0 = c\<lparr>visited := Map.empty\<rparr> in
        (case normalizeURL (domain c0) url of
           None \<Rightarrow> Some (c0, w, [])
         | Some normalizedURL \<Rightarrow>
             (case crawl_loop E fuel (c0, [normalizedURL], w, []) of
                None \<Rightarrow> None
              | Some (c1, w1, tr) \<Rightarrow>
                  Some (c1\<lparr>links := newLinks (visited c1) (links c1)\<rparr>, w1, tr))))"

text \<open>
  \<open>getLinks\<close> collects the values of \<open>links\<close> in the order of Go's map iteration, which is
  not specified: the model gives the set of the values.
\<close>

definition getLinks :: "crawler \<Rightarrow> crawlerURL set" where
  "getLinks c = ran (links c)"

section \<open>The options and their setters\<close>

text \<open>
  \<open>SiteMapperOptions\<close>, with \<open>time.Duration\<close> as the 64-bit signed integer it is. The
  fields that hold functions (the two loggers and the callback) are left out: a call of
  one is an event of the trace. A setter changes the options in place and returns an
  error or \<open>nil\<close>; the model returns the error (\<open>None\<close> is \<open>nil\<close>) with the options after
  the call.
\<close>

record SiteMapperOptions =
  options_domain :: string
  options_durationBeforeFirstCrawl :: "64 word"
  options_crawlInterval :: "64 word"
  options_startingURL :: string
  options_linkAttributes :: "string list"

datatype configError =
    InvalidDomainURL
  | InvalidDomainScheme
  | InvalidDomainPath
  | InvalidDomainHost
  | InvalidDuration
  | InvalidInterval
  | InvalidStartingURL
  | InvalidLinkAttributes

definition DefaultOptions :: SiteMapperOptions where
  "DefaultOptions =
     \<lparr>options_domain = ''http://localhost:8080'',
      options_durationBeforeFirstCrawl = 3000000000,
      options_crawlInterval = 604800000000000,
      options_startingURL = ''/'',
      options_linkAttributes = []\<rparr>"

definition SetDomain :: "string \<Rightarrow> SiteMapperOptions \<Rightarrow> configError option \<times> SiteMapperOptions" where
  "SetDomain d options =
     (case Parse d of
        Inl err \<Rightarrow> (Some InvalidDomainURL, options)
      | Inr parsedURL \<Rightarrow>
          if Scheme parsedURL \<noteq> ''http'' \<and> Scheme parsedURL \<noteq> ''https''
            then (Some InvalidDomainScheme, options)
          else if Path parsedURL \<noteq> [] \<and> Path parsedURL \<noteq> ''/''
            then (Some InvalidDomainPath, options)
          else if Hostname parsedURL = []
            then (Some InvalidDomainHost, options)
          else (None, options\<lparr>options_domain := TrimRight d CHR ''/''\<rparr>))"

definition SetDurationBeforeFirstCrawl ::
  "64 word \<Rightarrow> SiteMapperOptions \<Rightarrow> configError option \<times> SiteMapperOptions" where
  "SetDurationBeforeFirstCrawl duration options =
     (if duration <s 0 then (Some InvalidDuration, options)
      else (None, options\<lparr>options_durationBeforeFirstCrawl := duration\<rparr>))"

definition SetCrawlInterval ::
  "64 word \<Rightarrow> SiteMapperOptions \<Rightarrow> configError option \<times> SiteMapperOptions" where
  "SetCrawlInterval interval options =
     (if interval <s 0 then (Some InvalidInterval, options)
      else (None, options\<lparr>options_crawlInterval := interval\<rparr>))"

definition SetStartingURL :: "string \<Rightarrow> SiteMapperOptions \<Rightarrow> configError option \<times> SiteMapperOptions" where
  "SetStartingURL urlPath options =
     (case Parse urlPath of
        Inl err \<Rightarrow> (Some InvalidStartingURL, options)
      | Inr parsedURL \<Rightarrow>
          if IsAbs parsedURL \<or> \<not> HasPrefix urlPath ''/''
          then (Some InvalidStartingURL, options)
          else (None, options\<lparr>options_startingURL := urlPath\<rparr>))"

definition SetLinkAttributes ::
  "string list \<Rightarrow> SiteMapperOptions \<Rightarrow> configError option \<times> SiteMapperOptions" where
  "SetLinkAttributes attributes options =
     (if length attributes = 0 then (Some InvalidLinkAttributes, options)
      else (None, options\<lparr>options_linkAttributes := attributes\<rparr>))"

section \<open>The site mapper and its goroutine\<close>

record SiteMapper =
  spider :: crawler
  mapper_domain :: string

text \<open>
  What wakes the goroutine's \<open>select\<close>: the ticker or a value on \<open>recrawlSignal\<close> (sent by
  \<open>RecrawlSite\<close>).
\<close>

datatype stimulus = TickerFired | RecrawlSignal

text \<open>
  The \<open>for\<close> loop around the \<open>select\<close>, run on the stimuli that arrive, in order. The
  accumulated state is the crawler, the world and all events so far.
\<close>

fun serve ::
  "'w world \<Rightarrow> nat \<Rightarrow> SiteMapperOptions \<Rightarrow> stimulus list \<Rightarrow> crawler \<times> 'w \<times> event list
     \<Rightarrow> (crawler \<times> 'w \<times> event list) option" where
  "serve E fuel options [] st = Some st"
| "serve E fuel options (TickerFired # rest) (c, w, tr) =
     (case crawl E fuel (options_startingURL options) (c, w) of
        None \<Rightarrow> None
      | Some (c', w', ev) \<Rightarrow> serve E fuel options rest (c', w', tr @ ev @ [CallbackCalled]))"
| "serve E fuel options (RecrawlSignal # rest) (c, w, tr) =
     (case crawl E fuel (options_startingURL options) (c, w) of
        None \<Rightarrow> None
      | Some (c', w', ev) \<Rightarrow> serve E fuel options rest (c', w', tr @ ev @ [CallbackCalled]))"

text \<open>
  \<open>NewSiteMapper\<close> builds the mapper and starts the goroutine; \<open>goroutine\<close> is the function
  that the goroutine runs. \<open>time.NewTicker\<close> panics on an interval that is not positive.
\<close>

definition NewSiteMapper :: "SiteMapperOptions \<Rightarrow> SiteMapper" where
  "NewSiteMapper options =
     \<lparr>spider = newCrawler (options_domain options) (options_linkAttributes options),
      mapper_domain = options_domain options\<rparr>"

definition goroutine ::
  "'w world \<Rightarrow> nat \<Rightarrow> SiteMapperOptions \<Rightarrow> stimulus list \<Rightarrow> 'w
     \<Rightarrow> (crawler \<times> 'w \<times> event list) option" where
  "goroutine E fuel options stimuli w =
     (let mapper = NewSiteMapper options;
          tr0 = (if 0 <s options_durationBeforeFirstCrawl options
                 then [Slept (options_durationBeforeFirstCrawl options)] else [])
      in case crawl E fuel (options_startingURL options) (spider mapper, w) of
           None \<Rightarrow> None
         | Some (c, w', ev) \<Rightarrow>
             if options_crawlInterval options \<le>s 0 then Some (c, w', tr0 @ ev @ [TickerPanicked])
             else serve E fuel options stimuli (c, w', tr0 @ ev))"

section \<open>The sitemap\<close>

record sitemapURL =
  Location :: string
  LastModified :: string

record sitemapURLSet =
  Xmlns :: string
  XmlnsXsi :: string
  XsiSchemaLoc :: string
  URLS :: "sitemapURL list"

subsection \<open>Regular expressions (package \<open>regexp\<close>)\<close>

text \<open>
  The bytes that have a meaning of their own in the syntax of package \<open>regexp\<close> (the ones
  that \<open>regexp.QuoteMeta\<close> escapes). A pattern made of ASCII bytes none of which is one of
  them is a literal: it stands for itself, \<open>regexp.Compile\<close> accepts it, and
  \<open>MatchString\<close> reports whether it occurs somewhere in the string. The empty pattern is
  such a literal. For every other pattern, compiling and matching are parameters of the
  model (\<open>'r\<close> is the type of what such a pattern compiles to).
\<close>

definition metacharacters :: string where
  "metacharacters = CHR 0x5C # ''.+*?()|[]{}^$''"

definition isLiteralPattern :: "string \<Rightarrow> bool" where
  "isLiteralPattern expr = (\<forall>c \<in> set expr. c < CHR 0x80 \<and> c \<notin> set metacharacters)"

datatype 'r Regexp = Literal string | Meta 'r

record 'r library =
  compileMeta :: "string \<Rightarrow> string + 'r"
  matchMeta :: "'r \<Rightarrow> string \<Rightarrow> bool"
  time_Format :: "nat \<Rightarrow> string"
  today :: string

definition regexp_Compile :: "'r library \<Rightarrow> string \<Rightarrow> string + 'r Regexp" where
  "regexp_Compile L expr =
     (if isLiteralPattern expr then Inr (Literal expr)
      else (case compileMeta L expr of Inl err \<Rightarrow> Inl err | Inr r \<Rightarrow> Inr (Meta r)))"

definition regexp_MatchString :: "'r library \<Rightarrow> 'r Regexp \<Rightarrow> string \<Rightarrow> bool" where
  "regexp_MatchString L re s =
     (case re of
        Literal expr \<Rightarrow> Index s expr \<noteq> None
      | Meta r \<Rightarrow> matchMeta L r s)"

subsection \<open>The encoder (package \<open>encoding/xml\<close>)\<close>

text \<open>
  How many bytes the UTF-8 sequence at the head of a string takes, as \<open>utf8.DecodeRune\<close>
  reads it; 0 when there is no valid sequence there (the decoder then gives the
  replacement character and moves on by one byte).
\<close>

definition isCont :: "char \<Rightarrow> bool" where
  "isCont c = inRange (CHR 0x80) (CHR 0xBF) c"

definition runeWidth :: "string \<Rightarrow> nat" where
  "runeWidth s =
     (case s of
        [] \<Rightarrow> 0
      | b0 # r \<Rightarrow>
          if b0 < CHR 0x80 then 1
          else if inRange (CHR 0xC2) (CHR 0xDF) b0 then
            (case r of b1 # _ \<Rightarrow> if isCont b1 then 2 else 0 | _ \<Rightarrow> 0)
          else if inRange (CHR 0xE0) (CHR 0xEF) b0 then
            (case r of
               b1 # b2 # _ \<Rightarrow>
                 if inRange (if b0 = CHR 0xE0 then CHR 0xA0 else CHR 0x80)
                            (if b0 = CHR 0xED then CHR 0x9F else CHR 0xBF) b1 \<and> isCont b2
                 then 3 else 0
             | _ \<Rightarrow> 0)
          else if inRange (CHR 0xF0) (CHR 0xF4) b0 then
            (case r of
               b1 # b2 # b3 # _ \<Rightarrow>
                 if inRange (if b0 = CHR 0xF0 then CHR 0x90 else CHR 0x80)
                            (if b0 = CHR 0xF4 then CHR 0x8F else CHR 0xBF) b1
                    \<and> isCont b2 \<and> isCont b3
                 then 4 else 0
             | _ \<Rightarrow> 0)
          else 0)"

definition replacementChar :: string where
  "replacementChar = [CHR 0xEF, CHR 0xBF, CHR 0xBD]"

text \<open>
  \<open>escapeText\<close> as the encoder calls it for character data and attribute values: the five
  characters of markup, tab, newline and carriage return become character references;
  what is not a character of XML (the other control characters, U+FFFE, U+FFFF, a byte
  that is not valid UTF-8) becomes the replacement character; everything else is copied.
\<close>

definition escapeAt :: "string \<Rightarrow> string \<times> nat" where
  "escapeAt s =
     (case s of
        [] \<Rightarrow> ([], 0)
      | c # r \<Rightarrow>
          if c = CHR 0x22 then (''&#34;'', 1)
          else if c = CHR 0x27 then (''&#39;'', 1)
          else if c = CHR ''&'' then (''&amp;'', 1)
          else if c = CHR ''<'' then (''&lt;'', 1)
          else if c = CHR ''>'' then (''&gt;'', 1)
          else if c = CHR 0x09 then (''&#x9;'', 1)
          else if c = CHR 0x0A then (''&#xA;'', 1)
          else if c = CHR 0x0D then (''&#xD;'', 1)
          else if c < CHR 0x20 then (replacementChar, 1)
          else if c < CHR 0x80 then ([c], 1)
          else if runeWidth s = 0 then (replacementChar, 1)
          else if take 3 s = [CHR 0xEF, CHR 0xBF, CHR 0xBE] \<or> take 3 s = [CHR 0xEF, CHR 0xBF, CHR 0xBF]
            then (replacementChar, 3)
          else (take (runeWidth s) s, runeWidth s))"

text \<open>
  The loop of \<open>escapeText\<close>: \<open>escapeAt\<close> gives what is written for the character at the head
  and how many bytes it takes; \<open>skip\<close> counts the bytes of that character still to pass.
\<close>

fun escapeFrom :: "nat \<Rightarrow> string \<Rightarrow> string" where
  "escapeFrom skip [] = []"
| "escapeFrom skip (c # s) =
     (if 0 < skip then escapeFrom (skip - 1) s
      else fst (escapeAt (c # s)) @ escapeFrom (snd (escapeAt (c # s)) - 1) s)"

definition escapeText :: "string \<Rightarrow> string" where
  "escapeText s = escapeFrom 0 s"

text \<open>
  \<open>xml.MarshalIndent(urlSet, "", "\t")\<close> on a \<open>sitemapURLSet\<close>, by its field tags: the three
  attributes on the \<open>urlset\<close> element, then one \<open>url\<close> element for each entry with its \<open>loc\<close>
  and, unless it is empty, its \<open>lastmod\<close>, each on a line of its own, indented by tabs. The
  fields are strings, so the encoder has nothing to refuse.
\<close>

definition marshalURL :: "sitemapURL \<Rightarrow> string" where
  "marshalURL u =
     (let nl = [CHR 0x0A]; tab = [CHR 0x09] in
      nl @ tab @ ''<url>''
      @ nl @ tab @ tab @ ''<loc>'' @ escapeText (Location u) @ ''</loc>''
      @ (if LastModified u = [] then []
         else nl @ tab @ tab @ ''<lastmod>'' @ escapeText (LastModified u) @ ''</lastmod>'')
      @ nl @ tab @ ''</url>'')"

definition xml_MarshalIndent :: "sitemapURLSet \<Rightarrow> string + string" where
  "xml_MarshalIndent v =
     (let dq = [CHR 0x22]; nl = [CHR 0x0A] in
      Inr (''<urlset xmlns='' @ dq @ escapeText (Xmlns v) @ dq
           @ '' xmlns:xsi='' @ dq @ escapeText (XmlnsXsi v) @ dq
           @ '' xsi:schemaLocation='' @ dq @ escapeText (XsiSchemaLoc v) @ dq @ ''>''
           @ concat (map marshalURL (URLS v))
           @ (if URLS v = [] then [] else nl)
           @ ''</urlset>''))"

subsection \<open>\<open>GenerateSitemap\<close>\<close>

text \<open>
  \<open>Time.Format("2006-01-02")\<close> and the formatted date of \<open>time.Now()\<close> are the two other
  parameters of the model.
\<close>

datatype sitemapError =
    InvalidFilterPattern string
  | FailedToGenerateXml string

definition replaceDomain :: "string \<Rightarrow> string \<Rightarrow> string \<Rightarrow> string" where
  "replaceDomain l oldDomain newDomain =
     (if HasPrefix l oldDomain then newDomain @ drop (length oldDomain) l else l)"

definition EmptySitemapXML :: "'r library \<Rightarrow> string \<Rightarrow> string" where
  "EmptySitemapXML L baseDomain =
     (let q = [CHR 0x27]; dq = [CHR 0x22]; nl = [CHR 0x0A]; tab = [CHR 0x09] in
      ''<?xml version='' @ q @ ''1.0'' @ q @ '' encoding='' @ q @ ''UTF-8'' @ q @ ''?>'' @ nl
      @ tab @ tab @ ''<urlset xmlns:xsi='' @ dq @ ''http://www.w3.org/2001/XMLSchema-instance'' @ dq
      @ '' xsi:schemaLocation='' @ dq
      @ ''http://www.sitemaps.org/schemas/sitemap/0.9 http://www.sitemaps.org/schemas/sitemap/0.9/sitemap.xsd''
      @ dq @ '' xmlns='' @ dq @ ''http://www.sitemaps.org/schemas/sitemap/0.9'' @ dq @ ''>'' @ nl
      @ tab @ tab @ tab @ ''<url>'' @ nl
      @ tab @ tab @ tab @ tab @ ''<loc>'' @ baseDomain @ ''/</loc>'' @ nl
      @ tab @ tab @ tab @ tab @ ''<lastmod>'' @ today L @ ''</lastmod>'' @ nl
      @ tab @ tab @ tab @ ''</url>'' @ nl
      @ tab @ tab @ ''</urlset>'' @ nl
      @ tab @ tab)"

definition xmlHeader :: string where
  "xmlHeader = ''<?xml version='' @ [CHR 0x22] @ ''1.0'' @ [CHR 0x22] @ '' encoding=''
     @ [CHR 0x22] @ ''UTF-8'' @ [CHR 0x22] @ ''?>'' @ [CHR 0x0A]"

text \<open>The loop over the links, which skips a link that the filter matches.\<close>

fun sitemapURLs ::
  "'r library \<Rightarrow> 'r Regexp \<Rightarrow> string \<Rightarrow> string \<Rightarrow> crawlerURL list \<Rightarrow> sitemapURL list
     \<Rightarrow> sitemapURL list" where
  "sitemapURLs L re oldDomain baseDomain [] urls = urls"
| "sitemapURLs L re oldDomain baseDomain (l # ls) urls =
     (if regexp_MatchString L re (link l) then sitemapURLs L re oldDomain baseDomain ls urls
      else sitemapURLs L re oldDomain baseDomain ls
             (urls @ [\<lparr>Location = replaceDomain (link l) oldDomain baseDomain,
                       LastModified = time_Format L (lastChanged l)\<rparr>]))"

text \<open>
  \<open>GenerateSitemap\<close>; \<open>ls\<close> is the slice that \<open>mapper.spider.getLinks()\<close> returns, the values
  of \<open>links\<close> in some order.
\<close>

definition GenerateSitemap ::
  "'r library \<Rightarrow> SiteMapper \<Rightarrow> crawlerURL list \<Rightarrow> string \<Rightarrow> string \<Rightarrow> string \<times> sitemapError option" where
  "GenerateSitemap L mapper ls baseDomain filterPattern =
     (let urlSet = \<lparr>Xmlns = ''http://www.sitemaps.org/schemas/sitemap/0.9'',
                    XmlnsXsi = ''http://www.w3.org/2001/XMLSchema-instance'',
                    XsiSchemaLoc = ''http://www.sitemaps.org/schemas/sitemap/0.9 http://www.sitemaps.org/schemas/sitemap/0.9/sitemap.xsd'',
                    URLS = []\<rparr>
      in case regexp_Compile L filterPattern of
           Inl err \<Rightarrow> (EmptySitemapXML L baseDomain, Some (InvalidFilterPattern err))
         | Inr re \<Rightarrow>
             let urls = sitemapURLs L re (mapper_domain mapper) baseDomain ls [] in
             (case xml_MarshalIndent (urlSet\<lparr>URLS := urls\<rparr>) of
                Inl err \<Rightarrow> (EmptySitemapXML L baseDomain, Some (FailedToGenerateXml err))
              | Inr xmlBytes \<Rightarrow> (xmlHeader @ xmlBytes, None)))"

section \<open>A small site, for the evaluations\<close>

text \<open>
  The closed statements below run the crawler on one small site. Its home page links to
  page \<open>/a\<close>, twice to a page \<open>/gone\<close> that answers 404, and to another site; page \<open>/a\<close>
  links back to the home page. The state of the world is a counter that every request and
  every reading of the clock advances; the clock shows the counter. The tokenizer is
  given by the tokens of the two pages, and the hash by the body itself.
\<close>

definition anchor :: "string \<Rightarrow> Token" where
  "anchor href = \<lparr>Type = StartTagToken, Data = ''a'', Attr = [\<lparr>Namespace = [], Key = ''href'', Val = href\<rparr>]\<rparr>"

definition plainText :: "string \<Rightarrow> Token" where
  "plainText s = \<lparr>Type = TextToken, Data = s, Attr = []\<rparr>"

definition endTag :: "string \<Rightarrow> Token" where
  "endTag name = \<lparr>Type = EndTagToken, Data = name, Attr = []\<rparr>"

definition startTag :: "string \<Rightarrow> (string \<times> string) list \<Rightarrow> Token" where
  "startTag name attrs =
     \<lparr>Type = StartTagToken, Data = name,
      Attr = map (\<lambda>(k, v). \<lparr>Namespace = [], Key = k, Val = v\<rparr>) attrs\<rparr>"

definition homePage :: string where
  "homePage = ''<a href=/a>A</a><a href=/gone>G</a><a href=/gone>G</a><a href=https://other.org/>O</a>''"

definition pageA :: string where
  "pageA = ''<a href=/>H</a>''"

definition demoSite :: "nat world" where
  "demoSite =
     \<lparr>httpGet = (\<lambda>w u.
        (if u = ''http://example.com'' then Replied 200 (Inr homePage)
         else if u = ''http://example.com/a'' then Replied 200 (Inr pageA)
         else Replied 404 (Inr []), Suc w)),
      timeNow = (\<lambda>w. (w, Suc w)),
      tokenize = (\<lambda>body.
        if body = homePage then
          [anchor ''/a'', plainText ''A'', endTag ''a'',
           anchor ''/gone'', plainText ''G'', endTag ''a'',
           anchor ''/gone'', plainText ''G'', endTag ''a'',
           anchor ''https://other.org/'', plainText ''O'', endTag ''a'']
        else if body = pageA then [anchor ''/'', plainText ''H'', endTag ''a'']
        else []),
      sha256hex = (\<lambda>body. body)\<rparr>"

definition demoCrawler :: crawler where
  "demoCrawler = newCrawler ''http://example.com'' []"

definition demoTrace :: "event list" where
  "demoTrace =
     [HttpGet ''http://example.com'' (Replied 200 (Inr homePage)),
      InfoLogged (infoCrawling ''http://example.com''),
      ClockRead 1,
      HttpGet ''http://example.com/a'' (Replied 200 (Inr pageA)),
      InfoLogged (infoCrawling ''http://example.com/a''),
      ClockRead 3,
      HttpGet ''http://example.com/gone'' (Replied 404 (Inr [])),
      ErrorLogged (ErrStatus ''http://example.com/gone'' 404),
      HttpGet ''http://example.com/gone'' (Replied 404 (Inr [])),
      ErrorLogged (ErrStatus ''http://example.com/gone'' 404)]"

definition demoOptions :: SiteMapperOptions where
  "demoOptions = snd (SetDomain ''http://example.com'' DefaultOptions)"

definition afterFirst :: "crawler \<times> nat" where
  "afterFirst =
     (case crawl demoSite 10 ''/'' (demoCrawler, 0) of
        Some (c, w, tr) \<Rightarrow> (c, w)
      | None \<Rightarrow> (demoCrawler, 0))"

definition secondCycle :: "(crawler \<times> nat \<times> event list) option" where
  "secondCycle = crawl demoSite 10 ''/'' afterFirst"

definition pageARecord :: "nat \<Rightarrow> crawlerURL" where
  "pageARecord t = \<lparr>link = ''http://example.com/a'', checksum = pageA, lastChanged = t\<rparr>"

text \<open>
  The tokens of the page of \<open>TestExtractLinks\<close>, with an anchor that carries a configured
  attribute and a \<open>link\<close> tag with an \<open>href\<close> added, and a crawler configured as in that
  test.
\<close>

definition testTokens :: "Token list" where
  "testTokens =
     [startTag ''html'' [], startTag ''body'' [],
      startTag ''a'' [(''href'', ''http://example.com/page1'')], plainText ''Page 1'', endTag ''a'',
      startTag ''a'' [(''href'', ''/page2'')], plainText ''Page 2'', endTag ''a'',
      startTag ''a'' [(''href'', ''javascript:void(0)'')], plainText ''Invalid'', endTag ''a'',
      startTag ''a'' [(''hx-get'', ''/anchor-extra'')], endTag ''a'',
      startTag ''link'' [(''href'', ''/style.css'')],
      startTag ''div'' [],
      startTag ''button'' [(''hx-get'', ''/htmx'')], plainText ''Deeply Nested Button'', endTag ''button'',
      endTag ''div'', endTag ''body'', endTag ''html'']"

definition testWorld :: "nat world" where
  "testWorld = demoSite\<lparr>tokenize := (\<lambda>body. testTokens)\<rparr>"

definition testCrawler :: crawler where
  "testCrawler = newCrawler ''http://example.com'' [''hx-get'']"

text \<open>
  For \<open>GenerateSitemap\<close>: a library in which no pattern with metacharacters compiles and
  every date is formatted alike, a mapper for the default domain, and three links.
\<close>

definition plainLibrary :: "unit library" where
  "plainLibrary =
     \<lparr>compileMeta = (\<lambda>expr. Inl ''error parsing regexp''),
      matchMeta = (\<lambda>r s. False),
      time_Format = (\<lambda>t. ''1970-01-01''),
      today = ''1970-01-01''\<rparr>"

definition demoMapper :: SiteMapper where
  "demoMapper = NewSiteMapper (snd (SetDomain ''http://localhost:8080'' DefaultOptions))"

definition demoLinks :: "crawlerURL list" where
  "demoLinks =
     [\<lparr>link = ''http://localhost:8080'', checksum = ''00'', lastChanged = 0\<rparr>,
      \<lparr>link = ''http://localhost:8080/page1'', checksum = ''01'', lastChanged = 0\<rparr>,
      \<lparr>link = ''http://localhost:8080/htmx'', checksum = ''02'', lastChanged = 0\<rparr>]"

lemma demo_trace: "map_option (snd \<circ> snd) (crawl demoSite 10 ''/'' (demoCrawler, 0)) = Some demoTrace"
  by code_simp

lemma demo_crawl:
  obtains c' w' where "crawl demoSite 10 ''/'' (demoCrawler, 0) = Some (c', w', demoTrace)"
  using demo_trace by (cases "crawl demoSite 10 ''/'' (demoCrawler, 0)") auto

lemma demo_seed: "normalizeURL (domain demoCrawler) ''/'' = Some ''http://example.com''"
  by code_simp

lemma demo_bad_seed: "normalizeURL (domain demoCrawler) ''//other.org/'' = None"
  by code_simp

lemma second_cycle_values:
  "map_option (\<lambda>r. visited (fst r) ''http://example.com/a'') secondCycle = Some (Some (pageARecord 9))"
  "links (fst afterFirst) ''http://example.com/a'' = Some (pageARecord 3)"
  "normalizeURL (domain (fst afterFirst)) ''/'' = Some ''http://example.com''"
  by code_simp+

section \<open>The normalizer and the domain (claim C1)\<close>

text \<open>
  The origin of a URL string: scheme and host (with the port) of what \<open>url.Parse\<close> reads.
\<close>

definition origin :: "string \<Rightarrow> string option" where
  "origin s = (case Parse s of Inl err \<Rightarrow> None | Inr u \<Rightarrow> Some (Scheme u @ ''://'' @ Host u))"

text \<open>
  Claim C1: for every input whose resolved absolute URL has an origin different from the
  origin of the configured domain, \<open>normalizeURL\<close> returns \<open>("", false)\<close>.

  The code does not do that. Its last test is \<open>strings.HasPrefix(normalized, domain)\<close>, a
  test on the text, and a host that only begins with the domain's host passes it: with
  the domain \<open>http://example.com\<close>, the URL \<open>http://example.com.evil.org/x\<close> has another
  origin and is accepted.
\<close>

theorem C1_cross_domain_url_accepted:
  "origin ''http://example.com'' = Some ''http://example.com''
   \<and> origin ''http://example.com.evil.org/x'' = Some ''http://example.com.evil.org''
   \<and> normalizeURL ''http://example.com'' ''http://example.com.evil.org/x''
       = Some ''http://example.com.evil.org/x''"
  by code_simp

section \<open>The normalized form (claim C9)\<close>

text \<open>A \<open>#\<close> is no white space, so a string that holds one is not blank.\<close>

lemma hash_not_in_spaceRunes: "r \<in> set spaceRunes \<Longrightarrow> CHR ''#'' \<notin> set r"
  by (auto simp: spaceRunes_def)

lemma TrimLeftSpace_keeps_hash: "CHR ''#'' \<in> set s \<Longrightarrow> CHR ''#'' \<in> set (TrimLeftSpace s)"
proof (induction s rule: TrimLeftSpace.induct)
  case (1 s)
  show ?case
  proof (cases "leadingSpace s")
    case None
    with "1.prems" show ?thesis by simp
  next
    case (Some r)
    then have r: "prefix r s" "r \<in> set spaceRunes" using leadingSpace_Some by blast+
    then obtain t where s: "s = r @ t" by (auto simp: prefix_def)
    with "1.prems" hash_not_in_spaceRunes [OF r(2)] have "CHR ''#'' \<in> set (drop (length r) s)" by auto
    from "1.IH" [OF Some this] Some show ?thesis by simp
  qed
qed

lemma TrimRightSpace_keeps_hash: "CHR ''#'' \<in> set s \<Longrightarrow> CHR ''#'' \<in> set (TrimRightSpace s)"
proof (induction s rule: TrimRightSpace.induct)
  case (1 s)
  show ?case
  proof (cases "trailingSpace s")
    case None
    with "1.prems" show ?thesis by simp
  next
    case (Some r)
    then have r: "suffix r s" "r \<in> set spaceRunes" using trailingSpace_Some by blast+
    then obtain t where s: "s = t @ r" by (auto simp: suffix_def)
    with "1.prems" hash_not_in_spaceRunes [OF r(2)] have "CHR ''#'' \<in> set (take (length s - length r) s)" by auto
    from "1.IH" [OF Some this] Some show ?thesis by simp
  qed
qed

lemma TrimSpace_hash: "TrimSpace (u @ CHR ''#'' # f) \<noteq> []"
proof -
  have "CHR ''#'' \<in> set (TrimSpace (u @ CHR ''#'' # f))"
    unfolding TrimSpace_def by (intro TrimRightSpace_keeps_hash TrimLeftSpace_keeps_hash) simp
  then show ?thesis by auto
qed

lemma TrimRight_no_trailing: "\<not> suffix [c] (TrimRight s c)"
proof
  assume "suffix [c] (TrimRight s c)"
  then obtain p where "rev (dropWhile (\<lambda>x. x = c) (rev s)) = p @ [c]"
    by (auto simp: suffix_def TrimRight_def)
  then have "dropWhile (\<lambda>x. x = c) (rev s) = c # rev p" by (metis rev_rev_ident rev_append rev.simps append_Nil)
  then show False using hd_dropWhile [of "\<lambda>x. x = c" "rev s"] by auto
qed

text \<open>
  \<open>finish\<close> is what \<open>normalizeURL\<close> does once the reference is parsed; \<open>dropFragment\<close>
  forgets the fragment of a URL.
\<close>

definition finish :: "string \<Rightarrow> URL \<Rightarrow> string option" where
  "finish d parsedURL =
     (if Scheme parsedURL = ''javascript'' then None
      else
        (case (if \<not> IsAbs parsedURL
               then (case Parse d of
                       Inl err \<Rightarrow> None
                     | Inr baseURL \<Rightarrow> Some (ResolveReference baseURL parsedURL))
               else Some parsedURL) of
           None \<Rightarrow> None
         | Some resolved \<Rightarrow>
             let normalized = TrimRight (String (resolved\<lparr>Fragment := []\<rparr>)) CHR ''/''
             in if HasPrefix normalized d then Some normalized else None))"

definition dropFragment :: "URL \<Rightarrow> URL" where
  "dropFragment U = U\<lparr>Fragment := [], RawFragment := []\<rparr>"

lemma normalizeURL_finish:
  "normalizeURL d href =
     (if TrimSpace href = [] then None
      else case Parse href of Inl err \<Rightarrow> None | Inr parsedURL \<Rightarrow> finish d parsedURL)"
  by (simp add: normalizeURL_def finish_def split: sum.splits)

lemma normalizeURL_shape:
  assumes "normalizeURL d href = Some n"
  shows "HasPrefix n d \<and> \<not> HasSuffix n ''/''"
proof -
  from assms obtain resolved where n: "n = TrimRight (String (resolved\<lparr>Fragment := []\<rparr>)) CHR ''/''"
    and p: "HasPrefix n d"
    by (auto simp: normalizeURL_def Let_def split: if_splits sum.splits option.splits)
  from n show ?thesis using p TrimRight_no_trailing by (simp add: HasSuffix_def)
qed

lemma normalizeURL_relative:
  assumes "normalizeURL d u = Some n" and "Parse u = Inr P" and "\<not> IsAbs P" and "Parse d = Inr B"
  shows "n = TrimRight (String ((ResolveReference B P)\<lparr>Fragment := []\<rparr>)) CHR ''/''"
  using assms by (simp add: normalizeURL_def Let_def split: if_splits)

text \<open>What \<open>url.Parse\<close> reads when \<open>#\<close> and a fragment are appended.\<close>

lemma Cut_hash_fst: "fst (Cut CHR ''#'' (u @ CHR ''#'' # f)) = fst (Cut CHR ''#'' u)"
proof (cases "CHR ''#'' \<in> set u")
  case True
  then have "takeWhile (\<lambda>c. c \<noteq> CHR ''#'') (u @ CHR ''#'' # f) = takeWhile (\<lambda>c. c \<noteq> CHR ''#'') u"
    by (intro takeWhile_append1 [of "CHR ''#''"]) simp_all
  then show ?thesis by (simp only: Cut_def fst_conv)
next
  case False
  then have all: "\<And>x. x \<in> set u \<Longrightarrow> x \<noteq> CHR ''#''" by blast
  have stop: "takeWhile (\<lambda>c. c \<noteq> CHR ''#'') (CHR ''#'' # f) = []" by simp
  have "takeWhile (\<lambda>c. c \<noteq> CHR ''#'') (u @ CHR ''#'' # f) = u @ takeWhile (\<lambda>c. c \<noteq> CHR ''#'') (CHR ''#'' # f)"
    by (rule takeWhile_append2 [of u "\<lambda>c. c \<noteq> CHR ''#''"]) (rule all)
  then have L: "takeWhile (\<lambda>c. c \<noteq> CHR ''#'') (u @ CHR ''#'' # f) = u"
    by (simp only: stop append_Nil2)
  have R: "takeWhile (\<lambda>c. c \<noteq> CHR ''#'') u = u"
    by (rule takeWhile_eq_all_conv [THEN iffD2]) (use all in blast)
  show ?thesis by (simp only: Cut_def fst_conv L R)
qed

lemma Cut_hash_snd:
  "fst (snd (Cut CHR ''#'' (u @ CHR ''#'' # f)))
     = (if CHR ''#'' \<in> set u then fst (snd (Cut CHR ''#'' u)) @ CHR ''#'' # f else f)"
proof (cases "CHR ''#'' \<in> set u")
  case True
  then have app: "dropWhile (\<lambda>c. c \<noteq> CHR ''#'') (u @ CHR ''#'' # f)
      = dropWhile (\<lambda>c. c \<noteq> CHR ''#'') u @ CHR ''#'' # f"
    by (intro dropWhile_append1 [of "CHR ''#''"]) simp_all
  from True have "dropWhile (\<lambda>c. c \<noteq> CHR ''#'') u \<noteq> []" by auto
  then obtain x xs where "dropWhile (\<lambda>c. c \<noteq> CHR ''#'') u = x # xs"
    by (cases "dropWhile (\<lambda>c. c \<noteq> CHR ''#'') u") auto
  with True app show ?thesis by (simp add: Cut_def)
next
  case False
  then have "dropWhile (\<lambda>c. c \<noteq> CHR ''#'') (u @ CHR ''#'' # f)
      = dropWhile (\<lambda>c. c \<noteq> CHR ''#'') (CHR ''#'' # f)"
    by (intro dropWhile_append2) auto
  with False show ?thesis by (simp add: Cut_def)
qed

lemma Cut_no_hash: "CHR ''#'' \<notin> set u \<Longrightarrow> fst (snd (Cut CHR ''#'' u)) = []"
proof -
  assume "CHR ''#'' \<notin> set u"
  then have h: "dropWhile (\<lambda>c. c \<noteq> CHR ''#'') u = []" by auto
  show ?thesis unfolding Cut_def h by simp
qed

lemma unescape_check_hash_mode:
  "m = encodeFragment \<Longrightarrow> unescape_check m b = None
   \<Longrightarrow> unescape_check m (b @ CHR ''#'' # f) = unescape_check m f"
proof (induction m b rule: unescape_check.induct)
  case (1 mode)
  then show ?case by simp
next
  case (2 mode c s)
  show ?case
  proof (cases "c = CHR ''%''")
    case True
    with "2.prems" obtain a b' s' where s: "s = a # b' # s'"
      by (cases s; cases "tl s") auto
    with True "2.prems" have hex: "ishex a" "ishex b'" and rest: "unescape_check mode s' = None"
      by (auto split: if_splits)
    have "unescape_check mode (s' @ CHR ''#'' # f) = unescape_check mode f"
      using "2.IH"(1) [OF True s] hex "2.prems"(1) rest by simp
    with True s hex "2.prems"(1) show ?thesis by simp
  next
    case False
    with "2.prems" have "unescape_check mode s = None" by simp
    with "2.IH"(2) False "2.prems"(1) show ?thesis by simp
  qed
qed

lemma unescape_check_hash:
  "unescape_check encodeFragment b = None
   \<Longrightarrow> unescape_check encodeFragment (b @ CHR ''#'' # f) = unescape_check encodeFragment f"
  by (rule unescape_check_hash_mode) simp_all

lemma Parse_alt:
  "Parse rawURL =
     (case parse (fst (Cut CHR ''#'' rawURL)) of
        Inl e \<Rightarrow> Inl e
      | Inr url \<Rightarrow>
          if fst (snd (Cut CHR ''#'' rawURL)) = [] then Inr url
          else setFragment url (fst (snd (Cut CHR ''#'' rawURL))))"
  by (cases "Cut CHR ''#'' rawURL") (simp add: Parse_def split: sum.splits)

lemma setFragment_cases:
  "setFragment url fr =
     (case unescape_check encodeFragment fr of
        Some e \<Rightarrow> Inl e
      | None \<Rightarrow> Inr (url\<lparr>Fragment := unescape_decode encodeFragment fr,
                         RawFragment := (if fr = escape (unescape_decode encodeFragment fr) encodeFragment
                                         then [] else fr)\<rparr>))"
  by (simp add: setFragment_def unescape_def split: option.splits)

lemma Parse_Inr_fragment:
  assumes "Parse u = Inr U"
  shows "\<exists>url. parse (fst (Cut CHR ''#'' u)) = Inr url
    \<and> unescape_check encodeFragment (fst (snd (Cut CHR ''#'' u))) = None
    \<and> (\<forall>x y. url\<lparr>Fragment := x, RawFragment := y\<rparr> = U\<lparr>Fragment := x, RawFragment := y\<rparr>)"
proof -
  from assms obtain url where p: "parse (fst (Cut CHR ''#'' u)) = Inr url"
    by (auto simp: Parse_alt split: sum.splits)
  show ?thesis
  proof (cases "fst (snd (Cut CHR ''#'' u)) = []")
    case True
    with assms p have "U = url" by (simp add: Parse_alt)
    with True p show ?thesis by simp
  next
    case False
    with assms p have sf: "setFragment url (fst (snd (Cut CHR ''#'' u))) = Inr U"
      by (simp add: Parse_alt)
    then have chk: "unescape_check encodeFragment (fst (snd (Cut CHR ''#'' u))) = None"
      by (auto simp: setFragment_cases split: option.splits)
    with sf obtain x0 y0 where "U = url\<lparr>Fragment := x0, RawFragment := y0\<rparr>"
      by (auto simp: setFragment_cases)
    then have "\<And>x y. url\<lparr>Fragment := x, RawFragment := y\<rparr> = U\<lparr>Fragment := x, RawFragment := y\<rparr>"
      by simp
    with p chk show ?thesis by blast
  qed
qed

lemma Parse_append_fragment:
  assumes "Parse u = Inr U"
  shows "Parse (u @ CHR ''#'' # f) =
           (case unescape_check encodeFragment f of
              Some e \<Rightarrow> Inl e
            | None \<Rightarrow> Parse (u @ CHR ''#'' # f))
         \<and> (unescape_check encodeFragment f = None \<longrightarrow>
               (\<exists>x y. Parse (u @ CHR ''#'' # f) = Inr (U\<lparr>Fragment := x, RawFragment := y\<rparr>)))"
proof -
  from assms obtain url where p: "parse (fst (Cut CHR ''#'' u)) = Inr url"
    and chk: "unescape_check encodeFragment (fst (snd (Cut CHR ''#'' u))) = None"
    and upd: "\<And>x y. url\<lparr>Fragment := x, RawFragment := y\<rparr> = U\<lparr>Fragment := x, RawFragment := y\<rparr>"
    using Parse_Inr_fragment by blast
  let ?fr = "fst (snd (Cut CHR ''#'' (u @ CHR ''#'' # f)))"
  have fr_chk: "unescape_check encodeFragment ?fr = unescape_check encodeFragment f"
  proof (cases "CHR ''#'' \<in> set u")
    case True
    then show ?thesis using unescape_check_hash [OF chk] by (simp add: Cut_hash_snd)
  next
    case False
    then show ?thesis by (simp add: Cut_hash_snd)
  qed
  have P: "Parse (u @ CHR ''#'' # f) = (if ?fr = [] then Inr url else setFragment url ?fr)"
    by (simp add: Parse_alt [of "u @ CHR ''#'' # f"] Cut_hash_fst p)
  show ?thesis
  proof (cases "unescape_check encodeFragment f")
    case None
    have "\<exists>x y. Parse (u @ CHR ''#'' # f) = Inr (U\<lparr>Fragment := x, RawFragment := y\<rparr>)"
    proof (cases "?fr = []")
      case True
      with P have "Parse (u @ CHR ''#'' # f) = Inr url" by simp
      moreover have "url = url\<lparr>Fragment := Fragment url, RawFragment := RawFragment url\<rparr>" by simp
      ultimately show ?thesis using upd by metis
    next
      case False
      with P have "Parse (u @ CHR ''#'' # f) = setFragment url ?fr" by simp
      moreover obtain x y where "setFragment url ?fr = Inr (url\<lparr>Fragment := x, RawFragment := y\<rparr>)"
        using fr_chk None by (simp add: setFragment_cases)
      ultimately have "Parse (u @ CHR ''#'' # f) = Inr (U\<lparr>Fragment := x, RawFragment := y\<rparr>)"
        using upd by simp
      then show ?thesis by blast
    qed
    with None show ?thesis by simp
  next
    case (Some e)
    with fr_chk have "?fr \<noteq> []" by auto
    with P fr_chk Some show ?thesis by (simp add: setFragment_cases)
  qed
qed

text \<open>The fragment of the parsed reference has no part in the result.\<close>

lemma EscapedPath_dropFragment: "EscapedPath (dropFragment U) = EscapedPath U"
  by (simp add: EscapedPath_def dropFragment_def)

lemma String_dropFragment: "String (U\<lparr>Fragment := []\<rparr>) = String (dropFragment U)"
  by (simp add: String_def EscapedPath_def dropFragment_def split del: if_split cong del: if_weak_cong)

lemma dropFragment_setPath_ignore:
  "dropFragment (setPath_ignore U p) = setPath_ignore (dropFragment U) p"
  by (simp add: setPath_ignore_def setPath_def dropFragment_def split: sum.splits)

lemma dropFragment_update:
  "dropFragment (P\<lparr>Fragment := x, RawFragment := y\<rparr>) = dropFragment P"
  by (simp add: dropFragment_def)

lemma EscapedPath_update:
  "EscapedPath (P\<lparr>Fragment := x, RawFragment := y\<rparr>) = EscapedPath P"
  by (simp add: EscapedPath_def split del: if_split cong del: if_weak_cong)

lemma dropFragment_ResolveReference:
  "dropFragment (ResolveReference b (P\<lparr>Fragment := x, RawFragment := y\<rparr>))
     = dropFragment (ResolveReference b P)"
  by (simp add: ResolveReference_def Let_def dropFragment_setPath_ignore EscapedPath_update)
     (simp add: dropFragment_def)

lemma finish_fragment: "finish d (P\<lparr>Fragment := x, RawFragment := y\<rparr>) = finish d P"
proof -
  have "String ((ResolveReference b (P\<lparr>Fragment := x, RawFragment := y\<rparr>))\<lparr>Fragment := []\<rparr>)
      = String ((ResolveReference b P)\<lparr>Fragment := []\<rparr>)" for b
    by (simp only: String_dropFragment dropFragment_ResolveReference)
  moreover have "String (P\<lparr>Fragment := x, RawFragment := y\<rparr>\<lparr>Fragment := []\<rparr>) = String (P\<lparr>Fragment := []\<rparr>)"
    by (simp only: String_dropFragment dropFragment_update)
  ultimately show ?thesis
    by (simp add: finish_def IsAbs_def Let_def split: sum.splits)
qed

text \<open>
  Claim C9 as amended: a URL that \<open>normalizeURL\<close> returns begins with the configured
  domain and does not end in \<open>/\<close>; for a relative reference it is the reference resolved
  against the parsed domain, printed without its fragment and with its trailing slashes
  removed; and appending \<open>#\<close> and a fragment to an accepted input gives the same result
  when the percent escapes of the fragment are well formed, and is rejected otherwise.
\<close>

theorem C9_normalized_form:
  assumes "normalizeURL d u = Some n"
  shows "HasPrefix n d \<and> \<not> HasSuffix n ''/''
         \<and> (\<forall>P B. Parse u = Inr P \<and> \<not> IsAbs P \<and> Parse d = Inr B \<longrightarrow>
               n = TrimRight (String ((ResolveReference B P)\<lparr>Fragment := []\<rparr>)) CHR ''/'')
         \<and> normalizeURL d (u @ CHR ''#'' # f)
             = (if unescape_check encodeFragment f = None then Some n else None)"
proof -
  from assms obtain U where pu: "Parse u = Inr U" and fin: "finish d U = Some n"
    by (auto simp: normalizeURL_finish split: if_splits sum.splits)
  note pf = Parse_append_fragment [OF pu, of f]
  have "normalizeURL d (u @ CHR ''#'' # f)
          = (if unescape_check encodeFragment f = None then Some n else None)"
  proof (cases "unescape_check encodeFragment f")
    case None
    with pf obtain x y where "Parse (u @ CHR ''#'' # f) = Inr (U\<lparr>Fragment := x, RawFragment := y\<rparr>)"
      by blast
    with None fin show ?thesis
      by (simp add: normalizeURL_finish [of d "u @ CHR ''#'' # f"] TrimSpace_hash finish_fragment)
  next
    case (Some e)
    with pf have "Parse (u @ CHR ''#'' # f) = Inl e" by simp
    with Some show ?thesis
      by (simp add: normalizeURL_finish [of d "u @ CHR ''#'' # f"] TrimSpace_hash)
  qed
  with normalizeURL_shape [OF assms] normalizeURL_relative [OF assms] show ?thesis by blast
qed

lemma root_example: "normalizeURL ''http://example.com'' ''/'' = Some ''http://example.com''"
  by code_simp

lemma top_fragment_wellformed: "unescape_check encodeFragment ''top'' = None"
  by code_simp

text \<open>The root of the domain is returned as the bare domain string, with or without a fragment.\<close>

theorem C9_normalized_form_witness:
  "normalizeURL ''http://example.com'' ''/'' = Some ''http://example.com''
   \<and> HasPrefix ''http://example.com'' ''http://example.com''
   \<and> \<not> HasSuffix ''http://example.com'' ''/''
   \<and> normalizeURL ''http://example.com'' (''/'' @ ''#top'') = Some ''http://example.com''"
  using C9_normalized_form [OF root_example, of "''top''"] root_example top_fragment_wellformed
  by simp

text \<open>
  Claim C9 as stated says that an appended fragment never changes the result. A fragment
  with a malformed percent escape makes \<open>url.Parse\<close> fail, and the input is rejected.
\<close>

theorem C9_malformed_fragment_rejected:
  "normalizeURL ''http://example.com'' ''/page'' = Some ''http://example.com/page''
   \<and> normalizeURL ''http://example.com'' (''/page'' @ ''#100%'') = None"
  by code_simp

text \<open>The table of \<open>TestNormalizeURL\<close>, and two roots.\<close>

lemma normalizeURL_tests:
  "normalizeURL ''http://example.com'' ''http://example.com/page'' = Some ''http://example.com/page''"
  "normalizeURL ''http://example.com'' ''/page'' = Some ''http://example.com/page''"
  "normalizeURL ''http://example.com'' ''javascript:void(0)'' = None"
  "normalizeURL ''http://example.com'' ''http://otherdomain.com'' = None"
  "normalizeURL ''http://example.com'' ''http://example.com/page#fragment'' = Some ''http://example.com/page''"
  "normalizeURL ''http://example.com'' [] = None"
  "normalizeURL ''http://localhost:8080'' ''/'' = Some ''http://localhost:8080''"
  "normalizeURL ''http://example.com'' ''/docs/'' = Some ''http://example.com/docs''"
  by code_simp+

section \<open>\<open>extractLinks\<close> (claim C7)\<close>

text \<open>
  The claim in its own words. \<open>collected\<close> is what one token contributes: the values of
  the \<open>href\<close> attributes of an anchor tag, the values of the configured attributes of any
  other start or self-closing tag, nothing for any other token. \<open>tokensRead\<close> are the
  tokens before the first \<open>ErrorToken\<close>.
\<close>

definition collected :: "string list \<Rightarrow> Token \<Rightarrow> string list" where
  "collected attrs token =
     (if Type token = StartTagToken \<or> Type token = SelfClosingTagToken then
        (if Data token = ''a'' then map Val (filter (\<lambda>attr. Key attr = ''href'') (Attr token))
         else map Val (filter (\<lambda>attr. Key attr \<in> set attrs) (Attr token)))
      else [])"

definition tokensRead :: "Token list \<Rightarrow> Token list" where
  "tokensRead ts = takeWhile (\<lambda>t. Type t \<noteq> ErrorToken) ts"

lemma map_filter_app: "List.map_filter f (xs @ ys) = List.map_filter f xs @ List.map_filter f ys"
  by (simp add: List.map_filter_def)

lemma scanAttrs_eq:
  "scanAttrs d sel attrs ls = ls @ List.map_filter (normalizeURL d) (map Val (filter sel attrs))"
  by (induction attrs arbitrary: ls) (auto simp: List.map_filter_simps split: option.splits)

lemma extractLinks_loop_eq:
  "extractLinks_loop c ts ls
     = ls @ List.map_filter (normalizeURL (domain c))
              (concat (map (collected (linkAttributes c)) (tokensRead ts)))"
proof (induction ts arbitrary: ls)
  case Nil
  then show ?case by (simp add: tokensRead_def List.map_filter_simps)
next
  case (Cons t ts)
  then show ?case
    by (cases "Type t") (simp_all add: tokensRead_def collected_def scanAttrs_eq map_filter_app List.map_filter_simps)
qed

text \<open>
  Claim C7: \<open>extractLinks\<close> collects from every anchor tag the value of its \<open>href\<close>
  attribute only, from every other start or self-closing tag the value of every attribute
  whose name is configured, and returns, in document order, the normalized form of exactly
  those collected values that the normalizer accepts.
\<close>

theorem C7_extractLinks:
  "extractLinks E c r
     = List.map_filter (normalizeURL (domain c))
         (concat (map (collected (linkAttributes c)) (tokensRead (tokenize E r))))"
  by (simp add: extractLinks_def extractLinks_loop_eq)

text \<open>
  On the page of the test: the two anchors in the domain and the button's \<open>hx-get\<close> are
  returned; the \<open>javascript:\<close> anchor, the \<open>hx-get\<close> of an anchor and the \<open>href\<close> of the
  \<open>link\<close> tag are not.
\<close>

theorem C7_extractLinks_witness:
  "extractLinks testWorld testCrawler []
     = [''http://example.com/page1'', ''http://example.com/page2'', ''http://example.com/htmx'']"
  unfolding C7_extractLinks by code_simp

section \<open>The setters reject invalid input (claim C8)\<close>

text \<open>
  A malformed domain, in the claim's words: one that does not parse, or has a scheme other
  than \<open>http\<close> and \<open>https\<close>, or a path other than the root, or no host. A call is rejected
  when it returns an error and leaves the options as they were.
\<close>

definition malformedDomain :: "string \<Rightarrow> bool" where
  "malformedDomain d =
     (case Parse d of
        Inl err \<Rightarrow> True
      | Inr u \<Rightarrow>
          (Scheme u \<noteq> ''http'' \<and> Scheme u \<noteq> ''https'')
          \<or> (Path u \<noteq> [] \<and> Path u \<noteq> ''/'')
          \<or> Hostname u = [])"

definition rejected :: "configError option \<times> SiteMapperOptions \<Rightarrow> SiteMapperOptions \<Rightarrow> bool" where
  "rejected res options = (fst res \<noteq> None \<and> snd res = options)"

text \<open>
  Claim C8: every invalid construction input (a malformed domain, a negative delay, a
  negative interval, an empty set of link attributes) is rejected with an error by its
  setter, and the stored options stay unchanged.
\<close>

theorem C8_invalid_input_rejected:
  "(malformedDomain d \<longrightarrow> rejected (SetDomain d options) options)
   \<and> (duration <s 0 \<longrightarrow> rejected (SetDurationBeforeFirstCrawl duration options) options)
   \<and> (interval <s 0 \<longrightarrow> rejected (SetCrawlInterval interval options) options)
   \<and> (attributes = [] \<longrightarrow> rejected (SetLinkAttributes attributes options) options)"
  by (auto simp: malformedDomain_def rejected_def SetDomain_def SetDurationBeforeFirstCrawl_def
        SetCrawlInterval_def SetLinkAttributes_def split: sum.splits)

lemma malformed_ftp: "malformedDomain ''ftp://invalid-scheme.com''" by code_simp
lemma malformed_path: "malformedDomain ''http://example.com/home''" by code_simp
lemma malformed_host: "malformedDomain ''http://:8080''" by code_simp
lemma neg5: "(- 5000000000 :: 64 word) <s 0" by code_simp
lemma neg1: "(- 60000000000 :: 64 word) <s 0" by code_simp

theorem C8_invalid_input_rejected_witness:
  "malformedDomain ''ftp://invalid-scheme.com''
   \<and> rejected (SetDomain ''ftp://invalid-scheme.com'' DefaultOptions) DefaultOptions
   \<and> (- 5000000000 :: 64 word) <s 0
   \<and> rejected (SetDurationBeforeFirstCrawl (- 5000000000) DefaultOptions) DefaultOptions
   \<and> (- 60000000000 :: 64 word) <s 0
   \<and> rejected (SetCrawlInterval (- 60000000000) DefaultOptions) DefaultOptions
   \<and> rejected (SetLinkAttributes [] DefaultOptions) DefaultOptions"
  using C8_invalid_input_rejected [of "''ftp://invalid-scheme.com''" DefaultOptions
          "- 5000000000" "- 60000000000" "[]"]
        malformed_ftp neg5 neg1
  by simp

text \<open>The table of \<open>TestSetDomain\<close>.\<close>

lemma SetDomain_tests:
  "fst (SetDomain ''http://example.com'' DefaultOptions) = None"
  "fst (SetDomain ''https://valid-domain.org'' DefaultOptions) = None"
  "fst (SetDomain ''http://localhost:8080'' DefaultOptions) = None"
  "fst (SetDomain ''ftp://invalid-scheme.com'' DefaultOptions) = Some InvalidDomainScheme"
  "fst (SetDomain ''http://example.com/home'' DefaultOptions) = Some InvalidDomainPath"
  "fst (SetDomain ''/home'' DefaultOptions) = Some InvalidDomainScheme"
  "fst (SetDomain ''http://:8080'' DefaultOptions) = Some InvalidDomainHost"
  "fst (SetDomain ''invalid-url'' DefaultOptions) = Some InvalidDomainScheme"
  "fst (SetDomain [] DefaultOptions) = Some InvalidDomainScheme"
  by code_simp+

section \<open>The empty filter pattern (claim C10)\<close>

text \<open>
  The empty pattern is a literal: it compiles, and it occurs in every string. So the loop
  over the links skips every link. \<open>emptyUrlsetXML\<close> is the \<open>urlset\<close> element with its
  three attributes and no \<open>url\<close> entry, as the encoder writes it.
\<close>

definition emptyUrlsetXML :: string where
  "emptyUrlsetXML =
     ''<urlset xmlns='' @ [CHR 0x22] @ ''http://www.sitemaps.org/schemas/sitemap/0.9'' @ [CHR 0x22]
     @ '' xmlns:xsi='' @ [CHR 0x22] @ ''http://www.w3.org/2001/XMLSchema-instance'' @ [CHR 0x22]
     @ '' xsi:schemaLocation='' @ [CHR 0x22]
     @ ''http://www.sitemaps.org/schemas/sitemap/0.9 http://www.sitemaps.org/schemas/sitemap/0.9/sitemap.xsd''
     @ [CHR 0x22] @ ''></urlset>''"

lemma empty_pattern_compiles: "regexp_Compile L [] = Inr (Literal [])"
  by (simp add: regexp_Compile_def isLiteralPattern_def)

lemma Index_empty: "Index s [] = Some 0"
  by (cases s) simp_all

lemma empty_pattern_matches: "regexp_MatchString L (Literal []) s"
  by (simp add: regexp_MatchString_def Index_empty)

lemma sitemapURLs_empty_pattern:
  "sitemapURLs L (Literal []) oldDomain baseDomain ls urls = urls"
  by (induction ls arbitrary: urls) (simp_all add: empty_pattern_matches)

lemma marshal_empty:
  "xml_MarshalIndent
     \<lparr>Xmlns = ''http://www.sitemaps.org/schemas/sitemap/0.9'',
      XmlnsXsi = ''http://www.w3.org/2001/XMLSchema-instance'',
      XsiSchemaLoc = ''http://www.sitemaps.org/schemas/sitemap/0.9 http://www.sitemaps.org/schemas/sitemap/0.9/sitemap.xsd'',
      URLS = []\<rparr>
   = Inr emptyUrlsetXML"
  by code_simp

text \<open>
  Claim C10: \<open>GenerateSitemap\<close> with the empty string as the filter pattern succeeds (the
  error is \<open>nil\<close>), the empty regular expression matches every URL, and so every link is
  left out: whatever the links are, the document returned is the header followed by a
  \<open>urlset\<close> with no \<open>url\<close> entry.
\<close>

theorem C10_empty_pattern_excludes_all:
  "regexp_Compile L [] = Inr (Literal [])
   \<and> regexp_MatchString L (Literal []) s
   \<and> GenerateSitemap L mapper ls baseDomain [] = (xmlHeader @ emptyUrlsetXML, None)"
  by (simp add: GenerateSitemap_def empty_pattern_compiles empty_pattern_matches
        sitemapURLs_empty_pattern marshal_empty)

text \<open>
  On three links; with the pattern \<open>/htmx\<close> instead, the two links that it does not occur
  in are kept.
\<close>

theorem C10_empty_pattern_excludes_all_witness:
  "GenerateSitemap plainLibrary demoMapper demoLinks ''http://example.com'' []
     = (xmlHeader @ emptyUrlsetXML, None)"
  using C10_empty_pattern_excludes_all [of plainLibrary "[]" demoMapper demoLinks "''http://example.com''"]
  by simp

lemma other_pattern_keeps_links:
  "sitemapURLs plainLibrary (Literal ''/htmx'') ''http://localhost:8080'' ''http://example.com'' demoLinks []
     = [\<lparr>Location = ''http://example.com'', LastModified = ''1970-01-01''\<rparr>,
        \<lparr>Location = ''http://example.com/page1'', LastModified = ''1970-01-01''\<rparr>]"
  by code_simp

section \<open>One crawl cycle\<close>

text \<open>
  A GET succeeded when it brought a response with status 200 whose body could be read:
  these are the requests after which \<open>crawl\<close> records the URL in \<open>visited\<close>.
  \<open>fetchedOK\<close> are the URLs that a trace fetched with success. \<open>noRefetch\<close> says that no
  URL is requested after a successful request of it. \<open>recorded\<close> ties a record to the
  trace: it carries its URL, the hash of a body fetched for that URL, and a time read from
  the clock.
\<close>

fun succeeded :: "response \<Rightarrow> bool" where
  "succeeded (Replied code (Inr body)) = (code = 200)"
| "succeeded (Replied code (Inl err)) = False"
| "succeeded (GetFailed err) = False"

definition fetchedOK :: "event list \<Rightarrow> string set" where
  "fetchedOK tr = {u. \<exists>r. HttpGet u r \<in> set tr \<and> succeeded r}"

definition noRefetch :: "event list \<Rightarrow> bool" where
  "noRefetch tr = (\<forall>pre u r post. tr = pre @ HttpGet u r # post \<longrightarrow> u \<notin> fetchedOK pre)"

definition recorded :: "'w world \<Rightarrow> event list \<Rightarrow> string \<Rightarrow> crawlerURL \<Rightarrow> bool" where
  "recorded E tr u v =
     (link v = u
      \<and> (\<exists>body. HttpGet u (Replied 200 (Inr body)) \<in> set tr \<and> checksum v = sha256hex E body)
      \<and> ClockRead (lastChanged v) \<in> set tr)"

definition cycle_inv :: "'w world \<Rightarrow> crawler \<Rightarrow> event list \<Rightarrow> bool" where
  "cycle_inv E c tr =
     (dom (visited c) = fetchedOK tr
      \<and> (\<forall>u v. visited c u = Some v \<longrightarrow> recorded E tr u v)
      \<and> noRefetch tr)"

definition wellKeyed :: "crawler \<Rightarrow> bool" where
  "wellKeyed c = (\<forall>k r. links c k = Some r \<longrightarrow> link r = k)"

lemma succeeded_iff: "succeeded r \<longleftrightarrow> (\<exists>body. r = Replied 200 (Inr body))"
  by (cases r rule: succeeded.cases) auto

lemma fetchedOK_Nil [simp]: "fetchedOK [] = {}"
  by (simp add: fetchedOK_def)

lemma fetchedOK_append: "fetchedOK (xs @ ys) = fetchedOK xs \<union> fetchedOK ys"
  by (auto simp: fetchedOK_def)

lemma fetchedOK_get: "fetchedOK [HttpGet u r] = (if succeeded r then {u} else {})"
  by (auto simp: fetchedOK_def)

lemma fetchedOK_other: "(\<And>u r. e \<noteq> HttpGet u r) \<Longrightarrow> fetchedOK [e] = {}"
  by (auto simp: fetchedOK_def)

lemma fetchedOK_Cons: "fetchedOK (e # es) = fetchedOK [e] \<union> fetchedOK es"
  by (auto simp: fetchedOK_def)

lemma noRefetch_Nil [simp]: "noRefetch []"
  by (simp add: noRefetch_def)

lemma noRefetch_snoc_get:
  assumes "noRefetch tr" and "u \<notin> fetchedOK tr"
  shows "noRefetch (tr @ [HttpGet u r])"
  unfolding noRefetch_def
proof (intro allI impI)
  fix pre u' r' post
  assume eq: "tr @ [HttpGet u r] = pre @ HttpGet u' r' # post"
  show "u' \<notin> fetchedOK pre"
  proof (cases post rule: rev_cases)
    case Nil
    with eq have "pre = tr" "u' = u" by auto
    with assms show ?thesis by simp
  next
    case (snoc post' e)
    with eq have "tr = pre @ HttpGet u' r' # post'" by auto
    with assms(1) show ?thesis by (auto simp: noRefetch_def)
  qed
qed

lemma noRefetch_snoc_other:
  assumes "noRefetch tr" and "\<And>u r. e \<noteq> HttpGet u r"
  shows "noRefetch (tr @ [e])"
  unfolding noRefetch_def
proof (intro allI impI)
  fix pre u' r' post
  assume eq: "tr @ [e] = pre @ HttpGet u' r' # post"
  show "u' \<notin> fetchedOK pre"
  proof (cases post rule: rev_cases)
    case Nil
    with eq have "e = HttpGet u' r'" by auto
    with assms(2) show ?thesis by blast
  next
    case (snoc post' e')
    with eq have "tr = pre @ HttpGet u' r' # post'" by auto
    with assms(1) show ?thesis by (auto simp: noRefetch_def)
  qed
qed

lemma recorded_mono: "recorded E tr u v \<Longrightarrow> recorded E (tr @ ext) u v"
  by (auto simp: recorded_def)

text \<open>The invariant of the loop, one turn at a time, then for the whole loop.\<close>

lemma crawl_body_frame:
  assumes "crawl_body E u (c, q, w, tr) = (c', q', w', tr')"
  shows "links c' = links c \<and> domain c' = domain c \<and> linkAttributes c' = linkAttributes c"
  using assms
  by (auto simp: crawl_body_def Let_def split: if_splits prod.splits response.splits sum.splits)

lemma crawl_body_inv:
  assumes "crawl_body E u (c, q, w, tr) = (c', q', w', tr')" and "cycle_inv E c tr"
  shows "cycle_inv E c' tr'"
proof (cases "visited c u \<noteq> None")
  case True
  with assms show ?thesis by (simp add: crawl_body_def)
next
  case False
  then have unv: "visited c u = None" by simp
  from assms(2) have dom: "dom (visited c) = fetchedOK tr"
    and rec: "\<And>x v. visited c x = Some v \<Longrightarrow> recorded E tr x v"
    and nr: "noRefetch tr"
    by (auto simp: cycle_inv_def)
  from unv have "u \<notin> dom (visited c)" by (simp add: domIff)
  with dom have notin: "u \<notin> fetchedOK tr" by simp
  obtain resp w1 where get: "httpGet E w u = (resp, w1)" by (cases "httpGet E w u")
  have nr1: "noRefetch (tr @ [HttpGet u resp])" using nr notin by (rule noRefetch_snoc_get)
  show ?thesis
  proof (cases "succeeded resp")
    case False
    then obtain e where res: "c' = c" "tr' = (tr @ [HttpGet u resp]) @ [ErrorLogged e]"
      using assms(1) unv get
      by (cases resp rule: succeeded.cases) (auto simp: crawl_body_def Let_def split: if_splits)
    have "fetchedOK tr' = fetchedOK tr"
      using False by (simp add: res fetchedOK_append fetchedOK_get fetchedOK_other fetchedOK_Cons [of _ "_ # _"])
    moreover have "noRefetch tr'" unfolding res by (rule noRefetch_snoc_other [OF nr1]) simp
    moreover have "\<And>x v. visited c x = Some v \<Longrightarrow> recorded E tr' x v"
      using rec recorded_mono unfolding res by (metis append.assoc)
    ultimately show ?thesis using dom by (simp add: cycle_inv_def res)
  next
    case True
    then obtain body where resp: "resp = Replied 200 (Inr body)" by (auto simp: succeeded_iff)
    obtain now w2 where tn: "timeNow E w1 = (now, w2)" by (cases "timeNow E w1")
    let ?rec = "\<lparr>link = u, checksum = sha256hex E body, lastChanged = now\<rparr>"
    have res: "c' = c\<lparr>visited := (visited c)(u \<mapsto> ?rec)\<rparr>"
      "tr' = ((tr @ [HttpGet u resp]) @ [InfoLogged (infoCrawling u)]) @ [ClockRead now]"
      using assms(1) unv get resp tn by (auto simp: crawl_body_def Let_def)
    have "fetchedOK tr' = insert u (fetchedOK tr)"
      using True by (simp add: res fetchedOK_append fetchedOK_get fetchedOK_other fetchedOK_Cons [of _ "_ # _"])
    moreover have "noRefetch tr'" unfolding res
      by (intro noRefetch_snoc_other nr1) simp_all
    moreover have "recorded E tr' u ?rec"
      by (auto simp: recorded_def res resp)
    moreover have "\<And>x v. visited c x = Some v \<Longrightarrow> recorded E tr' x v"
      using rec recorded_mono unfolding res by (metis append.assoc)
    ultimately show ?thesis using dom by (auto simp: cycle_inv_def res)
  qed
qed

lemma crawl_loop_inv:
  "crawl_loop E n (c, q, w, tr) = Some (c', w', tr') \<Longrightarrow> cycle_inv E c tr
   \<Longrightarrow> cycle_inv E c' tr' \<and> links c' = links c \<and> domain c' = domain c
       \<and> linkAttributes c' = linkAttributes c"
proof (induction n arbitrary: c q w tr)
  case 0
  then show ?case by (cases q) auto
next
  case (Suc n)
  show ?case
  proof (cases q)
    case Nil
    with Suc.prems show ?thesis by auto
  next
    case (Cons u q')
    obtain c1 q1 w1 tr1 where body: "crawl_body E u (c, q', w, tr) = (c1, q1, w1, tr1)"
      by (cases "crawl_body E u (c, q', w, tr)") auto
    with Suc.prems Cons have loop: "crawl_loop E n (c1, q1, w1, tr1) = Some (c', w', tr')" by simp
    have "cycle_inv E c1 tr1" using body Suc.prems(2) by (rule crawl_body_inv)
    from Suc.IH [OF loop this] crawl_body_frame [OF body] show ?thesis by simp
  qed
qed

lemma cycle_inv_start: "cycle_inv E (c\<lparr>visited := Map.empty\<rparr>) []"
  by (simp add: cycle_inv_def)

lemma crawl_Some:
  assumes "crawl E fuel url (c, w) = Some (c', w', tr)" and "normalizeURL (domain c) url = Some n"
  shows "\<exists>c1. crawl_loop E fuel (c\<lparr>visited := Map.empty\<rparr>, [n], w, []) = Some (c1, w', tr)
           \<and> c' = c1\<lparr>links := newLinks (visited c1) (links c1)\<rparr>"
  using assms by (auto simp: crawl_def Let_def split: option.splits)

lemma crawl_cycle:
  assumes "crawl E fuel url (c, w) = Some (c', w', tr)" and "normalizeURL (domain c) url = Some n"
  shows "cycle_inv E c' tr \<and> links c' = newLinks (visited c') (links c)
         \<and> domain c' = domain c \<and> linkAttributes c' = linkAttributes c"
proof -
  from crawl_Some [OF assms] obtain c1 where
    loop: "crawl_loop E fuel (c\<lparr>visited := Map.empty\<rparr>, [n], w, []) = Some (c1, w', tr)"
    and c': "c' = c1\<lparr>links := newLinks (visited c1) (links c1)\<rparr>" by blast
  from crawl_loop_inv [OF loop cycle_inv_start] show ?thesis
    by (simp add: c' cycle_inv_def)
qed

lemma dom_newLinks: "dom (newLinks vis old) = dom vis"
  by (auto simp: newLinks_def dom_def split: option.splits)

lemma crawl_seed_rejected:
  "normalizeURL (domain c) url = None \<Longrightarrow> crawl E fuel url (c, w) = Some (c\<lparr>visited := Map.empty\<rparr>, w, [])"
  by (simp add: crawl_def)

lemma crawl_noRefetch:
  assumes "crawl E fuel url (c, w) = Some (c', w', tr)"
  shows "noRefetch tr"
proof (cases "normalizeURL (domain c) url")
  case None
  with assms show ?thesis by (simp add: crawl_seed_rejected)
next
  case (Some n)
  from crawl_cycle [OF assms Some] show ?thesis by (simp add: cycle_inv_def)
qed

lemma wellKeyed_newLinks:
  assumes "wellKeyed c" and "\<And>k v. vis k = Some v \<Longrightarrow> link v = k"
  shows "newLinks vis (links c) k = Some r \<Longrightarrow> link r = k"
  using assms by (auto simp: newLinks_def wellKeyed_def split: option.splits if_splits)

lemma wellKeyed_newCrawler: "wellKeyed (newCrawler d attrs)"
  by (simp add: wellKeyed_def newCrawler_def)

lemma demo_fetched: "fetchedOK demoTrace = {''http://example.com'', ''http://example.com/a''}"
  by (auto simp: fetchedOK_def demoTrace_def succeeded_iff)

subsection \<open>Fetches in a cycle (claim C2)\<close>

text \<open>
  Claim C2 as amended: within one crawl cycle no URL is requested again after a successful
  request of it. Whenever the trace of a cycle holds a GET of \<open>u\<close>, every earlier GET of
  \<open>u\<close> in that cycle failed.
\<close>

theorem C2_no_fetch_after_success:
  assumes "crawl E fuel url (c, w) = Some (c', w', tr)"
    and "tr = pre @ HttpGet u r # post"
    and "HttpGet u r' \<in> set pre"
  shows "\<not> succeeded r'"
proof -
  have "noRefetch tr" using assms(1) by (rule crawl_noRefetch)
  with assms(2) have "u \<notin> fetchedOK pre" by (auto simp: noRefetch_def)
  with assms(3) show ?thesis by (auto simp: fetchedOK_def)
qed

theorem C2_no_fetch_after_success_witness:
  "map_option (snd \<circ> snd) (crawl demoSite 10 ''/'' (demoCrawler, 0)) = Some demoTrace
   \<and> demoTrace = take 8 demoTrace @ HttpGet ''http://example.com/gone'' (Replied 404 (Inr [])) # drop 9 demoTrace
   \<and> HttpGet ''http://example.com/gone'' (Replied 404 (Inr [])) \<in> set (take 8 demoTrace)
   \<and> \<not> succeeded (Replied 404 (Inr []))"
proof -
  obtain c' w' where run: "crawl demoSite 10 ''/'' (demoCrawler, 0) = Some (c', w', demoTrace)"
    by (rule demo_crawl)
  have split: "demoTrace = take 8 demoTrace @ HttpGet ''http://example.com/gone'' (Replied 404 (Inr [])) # drop 9 demoTrace"
    by (simp add: demoTrace_def)
  have mem: "HttpGet ''http://example.com/gone'' (Replied 404 (Inr [])) \<in> set (take 8 demoTrace)"
    by (simp add: demoTrace_def)
  from C2_no_fetch_after_success [OF run split mem] demo_trace split mem show ?thesis by blast
qed

text \<open>
  Claim C2 as stated (each URL is subject to at most one GET per cycle) fails: a URL is
  marked visited only after a successful fetch, so a URL that fails and was enqueued twice
  is requested twice. On the small site \<open>/gone\<close> is.
\<close>

theorem C2_failed_url_fetched_twice:
  "map_option (snd \<circ> snd) (crawl demoSite 10 ''/'' (demoCrawler, 0))
     = Some
        [HttpGet ''http://example.com'' (Replied 200 (Inr homePage)),
         InfoLogged (infoCrawling ''http://example.com''),
         ClockRead 1,
         HttpGet ''http://example.com/a'' (Replied 200 (Inr pageA)),
         InfoLogged (infoCrawling ''http://example.com/a''),
         ClockRead 3,
         HttpGet ''http://example.com/gone'' (Replied 404 (Inr [])),
         ErrorLogged (ErrStatus ''http://example.com/gone'' 404),
         HttpGet ''http://example.com/gone'' (Replied 404 (Inr [])),
         ErrorLogged (ErrStatus ''http://example.com/gone'' 404)]"
  by code_simp

subsection \<open>The known links after a cycle (claim C3)\<close>

text \<open>
  Claim C3: after a crawl cycle that started (its seed was accepted by the normalizer) and
  ran to its end, the keys of \<open>links\<close> are exactly the URLs visited in that cycle, which
  are the URLs fetched with success; so a URL of an earlier cycle that was not visited in
  this one, also one whose fetch failed, is not in \<open>links\<close>, and the records that
  \<open>getLinks\<close> gives carry exactly these URLs (when each record of the earlier \<open>links\<close> was
  stored under its own URL, which the cycle preserves).
\<close>

theorem C3_links_are_the_visited:
  assumes "crawl E fuel url (c, w) = Some (c', w', tr)"
    and "normalizeURL (domain c) url = Some n"
    and "wellKeyed c"
  shows "dom (links c') = fetchedOK tr \<and> dom (visited c') = fetchedOK tr
         \<and> link ` getLinks c' = fetchedOK tr \<and> wellKeyed c'"
proof -
  from crawl_cycle [OF assms(1,2)] have inv: "cycle_inv E c' tr"
    and l: "links c' = newLinks (visited c') (links c)" by simp_all
  from inv have dv: "dom (visited c') = fetchedOK tr"
    and rec: "\<And>k v. visited c' k = Some v \<Longrightarrow> link v = k"
    by (auto simp: cycle_inv_def recorded_def)
  have dl: "dom (links c') = fetchedOK tr" by (simp add: l dom_newLinks dv)
  have wk: "wellKeyed c'"
    unfolding wellKeyed_def l using wellKeyed_newLinks [OF assms(3) rec] by blast
  have "link ` getLinks c' = dom (links c')"
  proof (intro set_eqI iffI)
    fix x assume "x \<in> link ` getLinks c'"
    then obtain r k where "links c' k = Some r" "x = link r" by (auto simp: getLinks_def ran_def)
    with wk show "x \<in> dom (links c')" by (auto simp: wellKeyed_def)
  next
    fix x assume "x \<in> dom (links c')"
    then obtain r where r: "links c' x = Some r" by auto
    with wk have "link r = x" by (auto simp: wellKeyed_def)
    moreover from r have "r \<in> getLinks c'" by (auto simp: getLinks_def ran_def)
    ultimately show "x \<in> link ` getLinks c'" by force
  qed
  with dl dv wk show ?thesis by simp
qed

theorem C3_links_are_the_visited_witness:
  "map_option (snd \<circ> snd) (crawl demoSite 10 ''/'' (demoCrawler, 0)) = Some demoTrace
   \<and> normalizeURL (domain demoCrawler) ''/'' = Some ''http://example.com''
   \<and> wellKeyed demoCrawler
   \<and> dom (links (fst (the (crawl demoSite 10 ''/'' (demoCrawler, 0)))))
       = {''http://example.com'', ''http://example.com/a''}
   \<and> link ` getLinks (fst (the (crawl demoSite 10 ''/'' (demoCrawler, 0))))
       = {''http://example.com'', ''http://example.com/a''}"
proof -
  obtain c' w' where run: "crawl demoSite 10 ''/'' (demoCrawler, 0) = Some (c', w', demoTrace)"
    by (rule demo_crawl)
  have wk: "wellKeyed demoCrawler" unfolding demoCrawler_def by (rule wellKeyed_newCrawler)
  from C3_links_are_the_visited [OF run demo_seed wk] demo_trace demo_seed wk
  show ?thesis by (simp add: run demo_fetched)
qed

subsection \<open>Change detection (claim C4)\<close>

text \<open>
  Claim C4: for every URL \<open>u\<close> visited in a cycle, with \<open>v\<close> its fresh record (its
  checksum is the hash of the body fetched, its time was read from the clock in this
  cycle): if \<open>links\<close> had a record for \<open>u\<close> with the same checksum, that record stays as
  it was, time and checksum; otherwise \<open>u\<close> gets the fresh record. The record of every
  other URL is the same whatever the fresh record of \<open>u\<close> is.
\<close>

theorem C4_change_detection:
  assumes "crawl E fuel url (c, w) = Some (c', w', tr)"
    and "normalizeURL (domain c) url = Some n"
    and "visited c' u = Some v"
  shows "link v = u
         \<and> (\<exists>body. HttpGet u (Replied 200 (Inr body)) \<in> set tr \<and> checksum v = sha256hex E body)
         \<and> ClockRead (lastChanged v) \<in> set tr
         \<and> links c' u =
             (case links c u of
                None \<Rightarrow> Some v
              | Some old \<Rightarrow> if checksum v = checksum old then Some old else Some v)
         \<and> (\<forall>x v'. x \<noteq> u \<longrightarrow> newLinks ((visited c')(u \<mapsto> v')) (links c) x = links c' x)"
proof -
  from crawl_cycle [OF assms(1,2)] have inv: "cycle_inv E c' tr"
    and l: "links c' = newLinks (visited c') (links c)" by simp_all
  from inv assms(3) have "recorded E tr u v" by (auto simp: cycle_inv_def)
  moreover have "links c' u =
      (case links c u of None \<Rightarrow> Some v | Some old \<Rightarrow> if checksum v = checksum old then Some old else Some v)"
    using assms(3) by (simp add: l newLinks_def split: option.splits)
  moreover have "\<forall>x v'. x \<noteq> u \<longrightarrow> newLinks ((visited c')(u \<mapsto> v')) (links c) x = links c' x"
    by (simp add: l newLinks_def)
  ultimately show ?thesis by (simp add: recorded_def)
qed

text \<open>
  A second cycle over the unchanged site: page \<open>/a\<close> is fetched again at time 9 and keeps
  its record of time 3.
\<close>

theorem C4_change_detection_witness:
  "secondCycle \<noteq> None
   \<and> normalizeURL (domain (fst afterFirst)) ''/'' = Some ''http://example.com''
   \<and> links (fst afterFirst) ''http://example.com/a'' = Some (pageARecord 3)
   \<and> visited (fst (the secondCycle)) ''http://example.com/a'' = Some (pageARecord 9)
   \<and> links (fst (the secondCycle)) ''http://example.com/a'' = Some (pageARecord 3)"
proof -
  obtain c' w' tr where run: "crawl demoSite 10 ''/'' (fst afterFirst, snd afterFirst) = Some (c', w', tr)"
    using second_cycle_values(1) by (cases secondCycle) (auto simp: secondCycle_def)
  then have sc: "secondCycle = Some (c', w', tr)" by (simp add: secondCycle_def)
  have vis: "visited c' ''http://example.com/a'' = Some (pageARecord 9)"
    using second_cycle_values(1) unfolding sc by simp
  from C4_change_detection [OF run second_cycle_values(3) vis]
  have "links c' ''http://example.com/a'' = Some (pageARecord 3)"
    by (simp add: second_cycle_values(2) pageARecord_def)
  with vis second_cycle_values(2,3) show ?thesis unfolding sc by simp
qed

subsection \<open>A seed that the normalizer rejects (claim C6)\<close>

text \<open>
  Claim C6 as amended: if the normalization of the seed URL fails, the cycle ends at once,
  whatever the fuel: no request is made and nothing is logged (the trace is empty), the
  world is as before, \<open>links\<close> and what \<open>getLinks\<close> gives are as before, only \<open>visited\<close>
  has been emptied; and every later cycle runs exactly as it would have run without the
  aborted one.
\<close>

theorem C6_seed_rejected_cycle:
  assumes "normalizeURL (domain c) url = None"
  shows "crawl E fuel url (c, w) = Some (c\<lparr>visited := Map.empty\<rparr>, w, [])
         \<and> links (c\<lparr>visited := Map.empty\<rparr>) = links c
         \<and> getLinks (c\<lparr>visited := Map.empty\<rparr>) = getLinks c
         \<and> (\<forall>fuel' url'. crawl E fuel' url' (c\<lparr>visited := Map.empty\<rparr>, w) = crawl E fuel' url' (c, w))"
  using assms by (simp add: crawl_def getLinks_def)

theorem C6_seed_rejected_cycle_witness:
  "normalizeURL (domain demoCrawler) ''//other.org/'' = None
   \<and> crawl demoSite 10 ''//other.org/'' (demoCrawler, 0) = Some (demoCrawler\<lparr>visited := Map.empty\<rparr>, 0, [])
   \<and> getLinks (demoCrawler\<lparr>visited := Map.empty\<rparr>) = getLinks demoCrawler"
  using C6_seed_rejected_cycle [OF demo_bad_seed, of demoSite 10 0] demo_bad_seed by simp

text \<open>
  Claim C6 as stated says that the event is logged internally. The code returns without
  a call of either logger: the trace of the aborted cycle is empty.
\<close>

theorem C6_nothing_logged:
  "normalizeURL (domain demoCrawler) ''//other.org/'' = None
   \<and> map_option (snd \<circ> snd) (crawl demoSite 10 ''//other.org/'' (demoCrawler, 0)) = Some []"
  by code_simp

section \<open>The callback after a cycle (claim C5)\<close>

text \<open>
  Claim C5: after each crawl cycle, whether started at startup, by the ticker or by a
  manual trigger, the callback is invoked.

  The goroutine calls the callback after a crawl started by the ticker and after one
  started by \<open>RecrawlSite\<close>, but not after the first crawl: with no stimulus after startup,
  the trace of the goroutine on the small site is the sleep and the first crawl, and
  holds no call of the callback.
\<close>

theorem C5_startup_crawl_without_callback:
  "map_option (snd \<circ> snd) (goroutine demoSite 10 demoOptions [] 0)
     = Some
        [Slept 3000000000,
         HttpGet ''http://example.com'' (Replied 200 (Inr homePage)),
         InfoLogged (infoCrawling ''http://example.com''),
         ClockRead 1,
         HttpGet ''http://example.com/a'' (Replied 200 (Inr pageA)),
         InfoLogged (infoCrawling ''http://example.com/a''),
         ClockRead 3,
         HttpGet ''http://example.com/gone'' (Replied 404 (Inr [])),
         ErrorLogged (ErrStatus ''http://example.com/gone'' 404),
         HttpGet ''http://example.com/gone'' (Replied 404 (Inr [])),
         ErrorLogged (ErrStatus ''http://example.com/gone'' 404)]"
  by code_simp

text \<open>The same for every world and all options.\<close>

lemma crawl_body_no_callback:
  assumes "crawl_body E u (c, q, w, tr) = (c', q', w', tr')" and "CallbackCalled \<notin> set tr"
  shows "CallbackCalled \<notin> set tr'"
  using assms
  by (auto simp: crawl_body_def Let_def split: if_splits prod.splits response.splits sum.splits)

lemma crawl_loop_no_callback:
  "crawl_loop E n (c, q, w, tr) = Some (c', w', tr') \<Longrightarrow> CallbackCalled \<notin> set tr
   \<Longrightarrow> CallbackCalled \<notin> set tr'"
proof (induction n arbitrary: c q w tr)
  case 0
  then show ?case by (cases q) auto
next
  case (Suc n)
  show ?case
  proof (cases q)
    case Nil
    with Suc.prems show ?thesis by auto
  next
    case (Cons u q')
    obtain c1 q1 w1 tr1 where body: "crawl_body E u (c, q', w, tr) = (c1, q1, w1, tr1)"
      by (cases "crawl_body E u (c, q', w, tr)") auto
    with Suc.prems Cons have loop: "crawl_loop E n (c1, q1, w1, tr1) = Some (c', w', tr')" by simp
    from Suc.IH [OF loop crawl_body_no_callback [OF body Suc.prems(2)]] show ?thesis .
  qed
qed

lemma crawl_no_callback:
  "crawl E fuel url (c, w) = Some (c', w', tr) \<Longrightarrow> CallbackCalled \<notin> set tr"
  by (auto simp: crawl_def Let_def split: option.splits dest: crawl_loop_no_callback)

lemma startup_never_calls_back:
  assumes "goroutine E fuel options [] w = Some (c, w', tr)"
  shows "CallbackCalled \<notin> set tr"
proof -
  obtain c1 w1 ev where
    run: "crawl E fuel (options_startingURL options) (spider (NewSiteMapper options), w) = Some (c1, w1, ev)"
    using assms by (auto simp: goroutine_def Let_def split: option.splits)
  have "CallbackCalled \<notin> set ev" using run by (rule crawl_no_callback)
  with assms run show ?thesis
    by (auto simp: goroutine_def Let_def split: if_splits)
qed

end
